theory Spec2Isabelle
  imports Complex_Main "HOL-Library.Sublist" "HOL-Library.AList" "HOL-Library.Multiset"
    "HOL-Library.Log_Nat"
begin

section \<open>JavaScript strings\<close>

text \<open>
  A JavaScript string is a sequence of UTF-16 code units; \<open>length\<close>, \<open>slice\<close>, \<open>trim\<close>
  and the regular expressions of the server (none has the \<open>u\<close> flag) all count and match
  code units. A code unit is a \<open>nat\<close> here; \<open>js\<close> turns an ASCII literal into its code
  units.
\<close>

type_synonym jsstring = "nat list"

definition js :: "string \<Rightarrow> jsstring" where
  "js s = map of_char s"

abbreviation (input) BACKTICK :: nat where "BACKTICK \<equiv> 0x60"
abbreviation (input) LBRACE :: nat where "LBRACE \<equiv> 0x7B"
abbreviation (input) RBRACE :: nat where "RBRACE \<equiv> 0x7D"
abbreviation (input) LBRACKET :: nat where "LBRACKET \<equiv> 0x5B"
abbreviation (input) RBRACKET :: nat where "RBRACKET \<equiv> 0x5D"
abbreviation (input) QUOTE :: nat where "QUOTE \<equiv> 0x22"
abbreviation (input) BACKSLASH :: nat where "BACKSLASH \<equiv> 0x5C"
abbreviation (input) COMMA :: nat where "COMMA \<equiv> 0x2C"
abbreviation (input) COLON :: nat where "COLON \<equiv> 0x3A"
abbreviation (input) MINUS :: nat where "MINUS \<equiv> 0x2D"
abbreviation (input) PLUS :: nat where "PLUS \<equiv> 0x2B"
abbreviation (input) DOT :: nat where "DOT \<equiv> 0x2E"

text \<open>
  \<open>isSpace\<close> is the class \<open>\s\<close> of a regular expression and the set \<open>trim()\<close> strips:
  WhiteSpace (TAB, VT, FF, SP, NBSP, ZWNBSP and the category Zs) and LineTerminator
  (LF, CR, LS, PS).
\<close>

definition isSpace :: "nat \<Rightarrow> bool" where
  "isSpace c \<longleftrightarrow>
     c = 0x9 \<or> c = 0xA \<or> c = 0xB \<or> c = 0xC \<or> c = 0xD \<or> c = 0x20 \<or> c = 0xA0 \<or>
     c = 0x1680 \<or> (0x2000 \<le> c \<and> c \<le> 0x200A) \<or> c = 0x2028 \<or> c = 0x2029 \<or>
     c = 0x202F \<or> c = 0x205F \<or> c = 0x3000 \<or> c = 0xFEFF"

definition trim :: "jsstring \<Rightarrow> jsstring" where
  "trim s = rev (dropWhile isSpace (rev (dropWhile isSpace s)))"

text \<open>
  \<open>slice(start, end)\<close> of strings and arrays: a negative index counts from the end, both
  indices are clamped to the length, \<open>None\<close> is an omitted \<open>end\<close>.
\<close>

definition relativeIndex :: "nat \<Rightarrow> int \<Rightarrow> nat" where
  "relativeIndex len i = (if i < 0 then nat (max (int len + i) 0) else min (nat i) len)"

definition slice :: "int \<Rightarrow> int option \<Rightarrow> 'a list \<Rightarrow> 'a list" where
  "slice start end xs =
     (let len = length xs;
          k = relativeIndex len start;
          final = (case end of None \<Rightarrow> len | Some e \<Rightarrow> relativeIndex len e)
      in take (final - k) (drop k xs))"

fun join :: "'a list \<Rightarrow> 'a list list \<Rightarrow> 'a list" where
  "join sep [] = []"
| "join sep [x] = x"
| "join sep (x # y # ys) = x @ sep @ join sep (y # ys)"

fun showNat :: "nat \<Rightarrow> jsstring" where
  "showNat n = (if n < 10 then [0x30 + n] else showNat (n div 10) @ [0x30 + n mod 10])"

declare showNat.simps [simp del]

section \<open>JSON values and \<open>JSON.parse\<close>\<close>

datatype json =
    JNull
  | JBool bool
  | JNumber rat
  | JString jsstring
  | JArray "json list"
  | JObject "(jsstring \<times> json) list"

text \<open>What a handler can catch: the error's class with its \<open>message\<close>.\<close>

datatype js_error = SyntaxError jsstring | TypeError jsstring | Error jsstring

fun message :: "js_error \<Rightarrow> jsstring" where
  "message (SyntaxError m) = m"
| "message (TypeError m) = m"
| "message (Error m) = m"

text \<open>
  \<open>JSON.parse\<close> belongs to the platform, not to the server. The extraction below takes
  the parser as an argument, and every general theorem holds for any parser.
  \<open>JSON_parse\<close> is a recursive-descent reading of the JSON grammar (ECMA-404) that the
  concrete examples run on: numbers are exact rationals, a repeated key keeps its first
  place and its last value, and the message of the \<open>SyntaxError\<close> follows V8's older
  wording (\<open>Unexpected token g in JSON at position 0\<close>); newer engines word it
  differently. A parser result is the value with the rest of the input, or the input
  left at the unexpected token. The recursion is on a counter that starts above the
  length of the text, more than the calls a text of that length can nest.
\<close>

datatype 'a parsed = Parsed 'a jsstring | Unexpected jsstring

definition isJsonSpace :: "nat \<Rightarrow> bool" where
  "isJsonSpace c \<longleftrightarrow> c = 0x9 \<or> c = 0xA \<or> c = 0xD \<or> c = 0x20"

definition skipSpace :: "jsstring \<Rightarrow> jsstring" where
  "skipSpace s = dropWhile isJsonSpace s"

definition isDigit :: "nat \<Rightarrow> bool" where
  "isDigit c \<longleftrightarrow> 0x30 \<le> c \<and> c \<le> 0x39"

definition digitsValue :: "jsstring \<Rightarrow> nat" where
  "digitsValue ds = foldl (\<lambda>a d. 10 * a + (d - 0x30)) 0 ds"

fun matchLiteral :: "jsstring \<Rightarrow> jsstring \<Rightarrow> unit parsed" where
  "matchLiteral [] s = Parsed () s"
| "matchLiteral (l # ls) [] = Unexpected []"
| "matchLiteral (l # ls) (c # r) = (if l = c then matchLiteral ls r else Unexpected (c # r))"

text \<open>The digits of a number after its sign: integer part, fraction, exponent.\<close>

definition parseExponent :: "rat \<Rightarrow> jsstring \<Rightarrow> rat parsed" where
  "parseExponent m s =
     (case s of
        [] \<Rightarrow> Parsed m []
      | c # r \<Rightarrow>
          if c = 0x65 \<or> c = 0x45 then
            (let (neg, r1) = (case r of
                               [] \<Rightarrow> (False, r)
                             | d # r' \<Rightarrow> if d = MINUS then (True, r')
                                        else if d = PLUS then (False, r') else (False, r));
                 ds = takeWhile isDigit r1
             in if ds = [] then Unexpected r1
                else Parsed (if neg then m / 10 ^ digitsValue ds else m * 10 ^ digitsValue ds)
                       (dropWhile isDigit r1))
          else Parsed m s)"

definition parseFraction :: "rat \<Rightarrow> jsstring \<Rightarrow> rat parsed" where
  "parseFraction m s =
     (case s of
        [] \<Rightarrow> Parsed m []
      | c # r \<Rightarrow>
          if c = DOT then
            (let ds = takeWhile isDigit r
             in if ds = [] then Unexpected r
                else parseExponent (m + of_nat (digitsValue ds) / 10 ^ length ds)
                       (dropWhile isDigit r))
          else parseExponent m s)"

definition parseDigits :: "jsstring \<Rightarrow> rat parsed" where
  "parseDigits s =
     (case s of
        [] \<Rightarrow> Unexpected []
      | c # r \<Rightarrow>
          if c = 0x30 then parseFraction 0 r
          else if isDigit c then
            parseFraction (of_nat (digitsValue (takeWhile isDigit s))) (dropWhile isDigit s)
          else Unexpected s)"

definition parseNumber :: "jsstring \<Rightarrow> rat parsed" where
  "parseNumber s =
     (case s of
        [] \<Rightarrow> Unexpected []
      | c # r \<Rightarrow>
          if c = MINUS then
            (case parseDigits r of Parsed m t \<Rightarrow> Parsed (- m) t | Unexpected u \<Rightarrow> Unexpected u)
          else parseDigits s)"

definition hexValue :: "nat \<Rightarrow> nat option" where
  "hexValue c =
     (if 0x30 \<le> c \<and> c \<le> 0x39 then Some (c - 0x30)
      else if 0x41 \<le> c \<and> c \<le> 0x46 then Some (c - 0x37)
      else if 0x61 \<le> c \<and> c \<le> 0x66 then Some (c - 0x57)
      else None)"

definition escapeValue :: "nat \<Rightarrow> nat option" where
  "escapeValue e =
     (if e = QUOTE \<or> e = BACKSLASH \<or> e = 0x2F then Some e
      else if e = 0x62 then Some 0x8
      else if e = 0x66 then Some 0xC
      else if e = 0x6E then Some 0xA
      else if e = 0x72 then Some 0xD
      else if e = 0x74 then Some 0x9
      else None)"

text \<open>The characters of a string literal after its opening quote.\<close>

fun parseChars :: "jsstring \<Rightarrow> jsstring \<Rightarrow> jsstring parsed" where
  "parseChars [] acc = Unexpected []"
| "parseChars (c # r) acc =
     (if c = QUOTE then Parsed acc r
      else if c = BACKSLASH then
        (case r of
           [] \<Rightarrow> Unexpected []
         | e # r' \<Rightarrow>
             if e = 0x75 then
               (case r' of
                  h1 # h2 # h3 # h4 # r'' \<Rightarrow>
                    (case (hexValue h1, hexValue h2, hexValue h3, hexValue h4) of
                       (Some a, Some b, Some c', Some d) \<Rightarrow>
                         parseChars r'' (acc @ [((a * 16 + b) * 16 + c') * 16 + d])
                     | _ \<Rightarrow> Unexpected (dropWhile (\<lambda>h. hexValue h \<noteq> None) r'))
                | _ \<Rightarrow> Unexpected (dropWhile (\<lambda>h. hexValue h \<noteq> None) r'))
             else
               (case escapeValue e of
                  Some x \<Rightarrow> parseChars r' (acc @ [x])
                | None \<Rightarrow> Unexpected (e # r')))
      else if c < 0x20 then Unexpected (c # r)
      else parseChars r (acc @ [c]))"

fun parseValue :: "nat \<Rightarrow> jsstring \<Rightarrow> json parsed"
  and parseElements :: "nat \<Rightarrow> jsstring \<Rightarrow> json list \<Rightarrow> json list parsed"
  and parseMembers :: "nat \<Rightarrow> jsstring \<Rightarrow> (jsstring \<times> json) list \<Rightarrow> (jsstring \<times> json) list parsed"
where
  "parseValue 0 s = Unexpected s"
| "parseValue (Suc n) s =
     (case skipSpace s of
        [] \<Rightarrow> Unexpected []
      | c # r \<Rightarrow>
          if c = LBRACE then
            (case skipSpace r of
               [] \<Rightarrow> Unexpected []
             | d # r' \<Rightarrow>
                 if d = RBRACE then Parsed (JObject []) r'
                 else (case parseMembers n (d # r') [] of
                         Parsed ms t \<Rightarrow> Parsed (JObject ms) t
                       | Unexpected u \<Rightarrow> Unexpected u))
          else if c = LBRACKET then
            (case skipSpace r of
               [] \<Rightarrow> Unexpected []
             | d # r' \<Rightarrow>
                 if d = RBRACKET then Parsed (JArray []) r'
                 else (case parseElements n (d # r') [] of
                         Parsed vs t \<Rightarrow> Parsed (JArray vs) t
                       | Unexpected u \<Rightarrow> Unexpected u))
          else if c = QUOTE then
            (case parseChars r [] of
               Parsed str t \<Rightarrow> Parsed (JString str) t
             | Unexpected u \<Rightarrow> Unexpected u)
          else if c = 0x74 then
            (case matchLiteral (js ''rue'') r of
               Parsed _ t \<Rightarrow> Parsed (JBool True) t
             | Unexpected u \<Rightarrow> Unexpected u)
          else if c = 0x66 then
            (case matchLiteral (js ''alse'') r of
               Parsed _ t \<Rightarrow> Parsed (JBool False) t
             | Unexpected u \<Rightarrow> Unexpected u)
          else if c = 0x6E then
            (case matchLiteral (js ''ull'') r of
               Parsed _ t \<Rightarrow> Parsed JNull t
             | Unexpected u \<Rightarrow> Unexpected u)
          else
            (case parseNumber (c # r) of
               Parsed m t \<Rightarrow> Parsed (JNumber m) t
             | Unexpected u \<Rightarrow> Unexpected u))"
| "parseElements 0 s acc = Unexpected s"
| "parseElements (Suc n) s acc =
     (case parseValue n s of
        Unexpected u \<Rightarrow> Unexpected u
      | Parsed v r \<Rightarrow>
          (case skipSpace r of
             [] \<Rightarrow> Unexpected []
           | c # r' \<Rightarrow>
               if c = COMMA then parseElements n r' (acc @ [v])
               else if c = RBRACKET then Parsed (acc @ [v]) r'
               else Unexpected (c # r')))"
| "parseMembers 0 s acc = Unexpected s"
| "parseMembers (Suc n) s acc =
     (case skipSpace s of
        [] \<Rightarrow> Unexpected []
      | q # r \<Rightarrow>
          if q \<noteq> QUOTE then Unexpected (q # r)
          else
            (case parseChars r [] of
               Unexpected u \<Rightarrow> Unexpected u
             | Parsed k r1 \<Rightarrow>
                 (case skipSpace r1 of
                    [] \<Rightarrow> Unexpected []
                  | c # r2 \<Rightarrow>
                      if c \<noteq> COLON then Unexpected (c # r2)
                      else
                        (case parseValue n r2 of
                           Unexpected u \<Rightarrow> Unexpected u
                         | Parsed v r3 \<Rightarrow>
                             (case skipSpace r3 of
                                [] \<Rightarrow> Unexpected []
                              | d # r4 \<Rightarrow>
                                  if d = COMMA then parseMembers n r4 (AList.update k v acc)
                                  else if d = RBRACE then Parsed (AList.update k v acc) r4
                                  else Unexpected (d # r4))))))"

definition syntaxErrorMessage :: "jsstring \<Rightarrow> jsstring \<Rightarrow> jsstring" where
  "syntaxErrorMessage s u =
     (case u of
        [] \<Rightarrow> js ''Unexpected end of JSON input''
      | c # _ \<Rightarrow>
          (if c = QUOTE then js ''Unexpected string''
           else if isDigit c \<or> c = MINUS then js ''Unexpected number''
           else js ''Unexpected token '' @ [c])
          @ js '' in JSON at position '' @ showNat (length s - length u))"

definition JSON_parse :: "jsstring \<Rightarrow> js_error + json" where
  "JSON_parse s =
     (case parseValue (Suc (length s)) s of
        Unexpected u \<Rightarrow> Inl (SyntaxError (syntaxErrorMessage s u))
      | Parsed v r \<Rightarrow>
          (case skipSpace r of
             [] \<Rightarrow> Inr v
           | c # r' \<Rightarrow> Inl (SyntaxError (syntaxErrorMessage s (c # r')))))"

section \<open>Extracting the analysis from the model's text\<close>

text \<open>
  The first regular expression of \<open>POST /analyze\<close> is
  \<^verbatim>\<open>/```(?:json)?\s*([\s\S]+?)\s*```/\<close>. The functions below are its backtracking matcher,
  one per piece of the pattern, each trying its alternatives in the engine's order.
  \<open>closes r\<close>: the tail \<^verbatim>\<open>\s*```\<close> matches at the front of \<open>r\<close> (a backtick is no
  space, so the greedy \<^verbatim>\<open>\s*\<close> never has to give a space back).
\<close>

abbreviation (input) FENCE :: jsstring where "FENCE \<equiv> [BACKTICK, BACKTICK, BACKTICK]"

definition closes :: "jsstring \<Rightarrow> bool" where
  "closes r = prefix FENCE (dropWhile isSpace r)"

text \<open>
  \<^verbatim>\<open>([\s\S]+?)\s*```\<close>: the lazy group takes one code unit, then one more each time the
  tail does not match; \<open>acc\<close> is what the group holds so far.
\<close>

fun lazyCapture :: "jsstring \<Rightarrow> jsstring \<Rightarrow> jsstring option" where
  "lazyCapture acc [] = None"
| "lazyCapture acc (c # r) = (if closes r then Some (acc @ [c]) else lazyCapture (acc @ [c]) r)"

text \<open>
  \<^verbatim>\<open>\s*([\s\S]+?)\s*```\<close>: the greedy \<^verbatim>\<open>\s*\<close> takes a space and goes on; when the rest
  fails it gives the space back and the group starts there.
\<close>

fun spacesThenCapture :: "jsstring \<Rightarrow> jsstring option" where
  "spacesThenCapture [] = None"
| "spacesThenCapture (c # r) =
     (if isSpace c then
        (case spacesThenCapture r of
           Some g \<Rightarrow> Some g
         | None \<Rightarrow> lazyCapture [] (c # r))
      else lazyCapture [] (c # r))"

text \<open>\<^verbatim>\<open>(?:json)?\<close> after the opening fence: with the tag first, then without it.\<close>

definition afterFence :: "jsstring \<Rightarrow> jsstring option" where
  "afterFence r =
     (case (if prefix (js ''json'') r then spacesThenCapture (drop 4 r) else None) of
        Some g \<Rightarrow> Some g
      | None \<Rightarrow> spacesThenCapture r)"

text \<open>\<open>raw.match(...)\<close>: the leftmost start that matches; the result is group 1.\<close>

fun fenceMatch :: "jsstring \<Rightarrow> jsstring option" where
  "fenceMatch [] = None"
| "fenceMatch (c # r) =
     (case (if prefix FENCE (c # r) then afterFence (drop 3 (c # r)) else None) of
        Some g \<Rightarrow> Some g
      | None \<Rightarrow> fenceMatch r)"

text \<open>
  The second regular expression is \<^verbatim>\<open>/\{[\s\S]*\}/\<close>: from the leftmost \<open>{\<close>, the greedy
  \<^verbatim>\<open>[\s\S]*\<close> runs to the end and gives code units back until a \<open>}\<close> follows. The result
  is the whole match.
\<close>

fun greedyToBrace :: "jsstring \<Rightarrow> jsstring option" where
  "greedyToBrace [] = None"
| "greedyToBrace (c # r) =
     (case greedyToBrace r of
        Some m \<Rightarrow> Some (c # m)
      | None \<Rightarrow> if c = RBRACE then Some [c] else None)"

fun braceMatch :: "jsstring \<Rightarrow> jsstring option" where
  "braceMatch [] = None"
| "braceMatch (c # r) =
     (case (if c = LBRACE then greedyToBrace r else None) of
        Some m \<Rightarrow> Some (c # m)
      | None \<Rightarrow> braceMatch r)"

text \<open>
  Lines 164 to 169 of the handler: \<open>raw\<close>, \<open>jsonMatch\<close>, \<open>jsonStr\<close>, \<open>objMatch\<close> and the one
  call of \<open>JSON.parse\<close>. \<open>analysisCandidate\<close> is the argument of that call.
\<close>

definition analysisCandidate :: "jsstring \<Rightarrow> jsstring" where
  "analysisCandidate text =
     (let raw = trim text;
          jsonMatch = fenceMatch raw;
          jsonStr = (case jsonMatch of Some g \<Rightarrow> g | None \<Rightarrow> raw);
          objMatch = braceMatch jsonStr
      in case objMatch of Some m \<Rightarrow> m | None \<Rightarrow> jsonStr)"

definition extractAnalysis :: "(jsstring \<Rightarrow> js_error + json) \<Rightarrow> jsstring \<Rightarrow> js_error + json" where
  "extractAnalysis parse text = parse (analysisCandidate text)"

text \<open>
  The earlier revision of the handler (\<open>server.js\<close>, lines 248 to 250) stops after the
  first regular expression: \<open>JSON.parse(jsonMatch ? jsonMatch[1] : raw)\<close>.
\<close>

definition extractAnalysisFenceOnly ::
  "(jsstring \<Rightarrow> js_error + json) \<Rightarrow> jsstring \<Rightarrow> js_error + json" where
  "extractAnalysisFenceOnly parse text =
     (let raw = trim text;
          jsonMatch = fenceMatch raw
      in parse (case jsonMatch of Some g \<Rightarrow> g | None \<Rightarrow> raw))"

section \<open>The server's state and its responses\<close>

datatype role = User | Assistant

record turn =
  role :: role
  content :: jsstring

text \<open>A row of the table \<open>knowledge_files\<close>.\<close>

record kfile =
  file_id :: nat
  filename :: jsstring
  file_content :: jsstring
  uploaded_at :: int

text \<open>
  The module's variables, the table, its \<open>SERIAL\<close> counter and what \<open>console.error\<close> has
  printed (the label and the message of each call). \<open>selects\<close> counts the queries that
  \<open>getKnowledgeBase\<close> has sent to the table; the server itself never reads it. A cached
  row is a pair of \<open>filename\<close> and \<open>content\<close>.
\<close>

record server =
  conversationHistory :: "turn list"
  knowledgeCache :: "(jsstring \<times> jsstring) list option"
  knowledgeCacheTime :: int
  knowledge_files :: "kfile list"
  knowledge_files_id_seq :: nat
  selects :: nat
  console :: "(jsstring \<times> jsstring) list"

definition initial :: server where
  "initial =
     \<lparr>conversationHistory = [], knowledgeCache = None, knowledgeCacheTime = 0,
      knowledge_files = [], knowledge_files_id_seq = 1, selects = 0, console = []\<rparr>"

datatype body =
    ErrorBody jsstring
  | ChatBody jsstring
  | AnalysisBody json
  | SuccessBody
  | SuccessIdBody nat
  | FilesBody "(nat \<times> jsstring \<times> jsstring \<times> int) list"

record response =
  status :: nat
  body :: body

text \<open>
  The \<open>catch\<close> block every handler ends with: \<open>console.error(label, err.message)\<close> and
  \<open>res.status(500).json({ error: err.message })\<close>.
\<close>

definition caught :: "jsstring \<Rightarrow> js_error \<Rightarrow> server \<Rightarrow> response \<times> server" where
  "caught label err s =
     (\<lparr>status = 500, body = ErrorBody (message err)\<rparr>,
      s\<lparr>console := console s @ [(label, message err)]\<rparr>)"

text \<open>
  A field of a request body is any JSON value or absent (\<open>None\<close>, JavaScript's
  \<open>undefined\<close>); \<open>truthy\<close> is what \<open>!\<close> negates.
\<close>

fun truthy :: "json option \<Rightarrow> bool" where
  "truthy None = False"
| "truthy (Some JNull) = False"
| "truthy (Some (JBool b)) = b"
| "truthy (Some (JNumber n)) = (n \<noteq> 0)"
| "truthy (Some (JString str)) = (str \<noteq> [])"
| "truthy (Some (JArray vs)) = True"
| "truthy (Some (JObject ms)) = True"

section \<open>\<open>POST /analyze\<close>\<close>

definition conversationText :: "turn list \<Rightarrow> jsstring" where
  "conversationText h =
     join [0xA, 0xA]
       (map (\<lambda>m. (if role m = User then js ''SALES REP'' else js ''HOMEOWNER/COACH'')
                  @ js '': '' @ content m) h)"

text \<open>
  \<open>reply\<close> is what \<open>await client.messages.create(...)\<close> followed by
  \<open>response.content[0].text\<close> comes to: the text, or the error thrown on the way.
\<close>

definition analyze ::
  "(jsstring \<Rightarrow> js_error + json) \<Rightarrow> js_error + jsstring \<Rightarrow> server \<Rightarrow> response \<times> server" where
  "analyze parse reply s =
     (if length (conversationHistory s) = 0 then
        (\<lparr>status = 400, body = ErrorBody (js ''No conversation to analyze.'')\<rparr>, s)
      else
        (case reply of
           Inl err \<Rightarrow> caught (js ''Analyze error:'') err s
         | Inr text \<Rightarrow>
             (case extractAnalysis parse text of
                Inl err \<Rightarrow> caught (js ''Analyze error:'') err s
              | Inr analysis \<Rightarrow> (\<lparr>status = 200, body = AnalysisBody analysis\<rparr>, s))))"

section \<open>The knowledge base and its cache\<close>

text \<open>
  \<^verbatim>\<open>SELECT filename, content FROM knowledge_files ORDER BY uploaded_at\<close>. SQL leaves the
  order of rows with equal \<open>uploaded_at\<close> open; the sort here keeps them as stored.
\<close>

definition selectForPrompt :: "kfile list \<Rightarrow> (jsstring \<times> jsstring) list" where
  "selectForPrompt tbl = map (\<lambda>r. (filename r, file_content r)) (sort_key uploaded_at tbl)"

text \<open>
  \<open>getKnowledgeBase\<close>: \<open>now\<close> is \<open>Date.now()\<close>; \<open>fault\<close> is the error the query rejects
  with, if it does. An array is truthy even when empty, so \<open>knowledgeCache &&\<close> asks
  only whether the variable is \<open>null\<close>.
\<close>

definition getKnowledgeBase ::
  "int \<Rightarrow> js_error option \<Rightarrow> server \<Rightarrow> (js_error + (jsstring \<times> jsstring) list) \<times> server" where
  "getKnowledgeBase now fault s =
     (if knowledgeCache s \<noteq> None \<and> now - knowledgeCacheTime s < 60000 then
        (Inr (the (knowledgeCache s)), s)
      else
        (case fault of
           Some err \<Rightarrow> (Inl err, s\<lparr>selects := Suc (selects s)\<rparr>)
         | None \<Rightarrow>
             (let rows = selectForPrompt (knowledge_files s)
              in (Inr rows,
                  s\<lparr>knowledgeCache := Some rows, knowledgeCacheTime := now,
                    selects := Suc (selects s)\<rparr>))))"

definition BASE_SYSTEM_PROMPT :: jsstring where
  "BASE_SYSTEM_PROMPT =
     js ''You are roleplaying as a skeptical homeowner. A door-to-door roofing sales rep has just knocked on your door. You are mildly annoyed but willing to listen. After each rep message, respond in character as the homeowner, then on a new line add: COACH: [1-2 sentences of direct, specific feedback on the rep''
     @ [0x27] @
     js ''s technique and vocal delivery. If the message includes voice metrics (WPM, energy, pitch, filler words), address them explicitly ''
     @ [0x2014] @
     js '' ideal sales pace is 130-150 WPM, energy should be warm and confident, filler words undermine credibility, monotone delivery kills rapport. Always say what to do differently. If training materials are provided below, reference them specifically when relevant.]''"

definition TRAINING_HEADER :: jsstring where
  "TRAINING_HEADER =
     js ''[TRAINING MATERIALS '' @ [0x2014] @ js '' reference these when coaching]''"

text \<open>
  The body of \<open>buildSystemPrompt\<close> once the files are there, with the base script as an
  argument.
\<close>

definition labeledBlock :: "jsstring \<times> jsstring \<Rightarrow> jsstring" where
  "labeledBlock f =
     (case f of (fname, fcontent) \<Rightarrow>
        js ''--- '' @ fname @ js '' ---'' @ [0xA] @ slice 0 (Some 3000) fcontent)"

definition buildPrompt :: "jsstring \<Rightarrow> (jsstring \<times> jsstring) list \<Rightarrow> jsstring" where
  "buildPrompt base files =
     (if length files = 0 then base
      else (let kb = join [0xA, 0xA] (map labeledBlock files)
            in base @ [0xA, 0xA] @ TRAINING_HEADER @ [0xA] @ kb))"

definition buildSystemPrompt ::
  "int \<Rightarrow> js_error option \<Rightarrow> server \<Rightarrow> (js_error + jsstring) \<times> server" where
  "buildSystemPrompt now fault s =
     (case getKnowledgeBase now fault s of
        (Inl err, s') \<Rightarrow> (Inl err, s')
      | (Inr files, s') \<Rightarrow> (Inr (buildPrompt BASE_SYSTEM_PROMPT files), s'))"

section \<open>\<open>POST /chat\<close>\<close>

text \<open>
  Lines 80 to 85 of the handler: the check of the message and the push of the rep's
  turn. \<open>msg\<close> is the field \<open>message\<close> of the request body. The result is the answer
  already sent, or the state with the turn pushed. A truthy \<open>msg\<close> that is no string
  has no \<open>trim\<close>: the call throws a \<open>TypeError\<close> inside the \<open>try\<close>.
\<close>

definition appendRep :: "json option \<Rightarrow> server \<Rightarrow> (response \<times> server) + server" where
  "appendRep msg s =
     (if \<not> truthy msg then
        Inl (\<lparr>status = 400, body = ErrorBody (js ''Message is required.'')\<rparr>, s)
      else
        (case msg of
           Some (JString m) \<Rightarrow>
             if trim m = [] then
               Inl (\<lparr>status = 400, body = ErrorBody (js ''Message is required.'')\<rparr>, s)
             else
               Inr (s\<lparr>conversationHistory :=
                        conversationHistory s @ [\<lparr>role = User, content = m\<rparr>]\<rparr>)
         | _ \<Rightarrow>
             Inl (caught (js ''Chat error:'')
                    (TypeError (js ''message.trim is not a function'')) s)))"

text \<open>
  The whole handler. \<open>reply\<close> is what \<open>await client.messages.create(...)\<close> followed by
  \<open>response.content[0].text\<close> comes to: the text, or the error thrown on the way.
\<close>

definition chat ::
  "json option \<Rightarrow> int \<Rightarrow> js_error option \<Rightarrow> js_error + jsstring \<Rightarrow> server
     \<Rightarrow> response \<times> server" where
  "chat msg now fault reply s =
     (case appendRep msg s of
        Inl answered \<Rightarrow> answered
      | Inr s1 \<Rightarrow>
          (case buildSystemPrompt now fault s1 of
             (Inl err, s2) \<Rightarrow> caught (js ''Chat error:'') err s2
           | (Inr systemPrompt, s2) \<Rightarrow>
               (case reply of
                  Inl err \<Rightarrow> caught (js ''Chat error:'') err s2
                | Inr assistantMessage \<Rightarrow>
                    (\<lparr>status = 200, body = ChatBody assistantMessage\<rparr>,
                     s2\<lparr>conversationHistory :=
                          conversationHistory s2
                          @ [\<lparr>role = Assistant, content = assistantMessage\<rparr>]\<rparr>))))"

definition reset :: "server \<Rightarrow> response \<times> server" where
  "reset s = (\<lparr>status = 200, body = SuccessBody\<rparr>, s\<lparr>conversationHistory := []\<rparr>)"

section \<open>The knowledge file endpoints\<close>

text \<open>
  \<open>POST /knowledge-file\<close>: \<open>ts\<close> is the \<open>NOW()\<close> the table gives the new row. The
  arguments of the query are evaluated before it is sent, \<open>filename.trim()\<close> first.
\<close>

definition knowledgeFilePost ::
  "json option \<Rightarrow> json option \<Rightarrow> int \<Rightarrow> js_error option \<Rightarrow> server \<Rightarrow> response \<times> server" where
  "knowledgeFilePost fname fcontent ts fault s =
     (if \<not> truthy fname \<or> \<not> truthy fcontent then
        (\<lparr>status = 400, body = ErrorBody (js ''filename and content required.'')\<rparr>, s)
      else
        (case fname of
           Some (JString f) \<Rightarrow>
             (case fcontent of
                Some (JString c) \<Rightarrow>
                  (case fault of
                     Some err \<Rightarrow> caught (js ''Knowledge file error:'') err s
                   | None \<Rightarrow>
                       (\<lparr>status = 200, body = SuccessIdBody (knowledge_files_id_seq s)\<rparr>,
                        s\<lparr>knowledge_files :=
                             knowledge_files s
                             @ [\<lparr>file_id = knowledge_files_id_seq s, filename = trim f,
                                 file_content = trim c, uploaded_at = ts\<rparr>],
                           knowledge_files_id_seq := Suc (knowledge_files_id_seq s),
                           knowledgeCache := None\<rparr>))
              | _ \<Rightarrow> caught (js ''Knowledge file error:'')
                       (TypeError (js ''content.trim is not a function'')) s)
         | _ \<Rightarrow> caught (js ''Knowledge file error:'')
                  (TypeError (js ''filename.trim is not a function'')) s))"

text \<open>
  \<open>GET /knowledge-files\<close>:
  \<^verbatim>\<open>SELECT id, filename, LEFT(content, 120) AS preview, uploaded_at ... ORDER BY uploaded_at DESC\<close>.
\<close>

text \<open>
  PostgreSQL's \<open>LEFT(str, n)\<close> counts characters (code points, the database being in
  UTF-8), not UTF-16 code units: a character outside the Basic Multilingual Plane is
  one character there and a surrogate pair, two code units, in the string the handler
  gets back. \<open>sqlLeft n\<close> is the code units of the first \<open>n\<close> characters and
  \<open>charCount\<close> the number of characters; a surrogate that is not part of a pair counts
  as a character of its own.
\<close>

definition isHighSurrogate :: "nat \<Rightarrow> bool" where
  "isHighSurrogate c \<longleftrightarrow> 0xD800 \<le> c \<and> c \<le> 0xDBFF"

definition isLowSurrogate :: "nat \<Rightarrow> bool" where
  "isLowSurrogate c \<longleftrightarrow> 0xDC00 \<le> c \<and> c \<le> 0xDFFF"

fun sqlLeft :: "nat \<Rightarrow> jsstring \<Rightarrow> jsstring" where
  "sqlLeft 0 s = []"
| "sqlLeft (Suc n) [] = []"
| "sqlLeft (Suc n) [c] = [c]"
| "sqlLeft (Suc n) (c # d # r) =
     (if isHighSurrogate c \<and> isLowSurrogate d then c # d # sqlLeft n r
      else c # sqlLeft n (d # r))"

fun charCount :: "jsstring \<Rightarrow> nat" where
  "charCount [] = 0"
| "charCount [c] = 1"
| "charCount (c # d # r) =
     (if isHighSurrogate c \<and> isLowSurrogate d then Suc (charCount r)
      else Suc (charCount (d # r)))"

definition selectForList :: "kfile list \<Rightarrow> (nat \<times> jsstring \<times> jsstring \<times> int) list" where
  "selectForList tbl =
     map (\<lambda>r. (file_id r, filename r, sqlLeft 120 (file_content r), uploaded_at r))
       (sort_key (\<lambda>r. - uploaded_at r) tbl)"

definition knowledgeFilesGet :: "js_error option \<Rightarrow> server \<Rightarrow> response \<times> server" where
  "knowledgeFilesGet fault s =
     (case fault of
        Some err \<Rightarrow> caught (js ''Knowledge list error:'') err s
      | None \<Rightarrow> (\<lparr>status = 200, body = FilesBody (selectForList (knowledge_files s))\<rparr>, s))"

text \<open>\<open>DELETE /knowledge-file/:id\<close>: a row that is not there is no error.\<close>

definition knowledgeFileDelete :: "nat \<Rightarrow> js_error option \<Rightarrow> server \<Rightarrow> response \<times> server" where
  "knowledgeFileDelete i fault s =
     (case fault of
        Some err \<Rightarrow> caught (js ''Knowledge delete error:'') err s
      | None \<Rightarrow>
          (\<lparr>status = 200, body = SuccessBody\<rparr>,
           s\<lparr>knowledge_files := filter (\<lambda>r. file_id r \<noteq> i) (knowledge_files s),
             knowledgeCache := None\<rparr>))"

text \<open>
  A request, with what the outside answers while it is handled (the clock, the fault of
  the query, the reply of the model), and the server handling a list of requests one
  after the other: a handler runs to its end before the next starts.
\<close>

datatype request =
    PostChat "json option" int "js_error option" "js_error + jsstring"
  | PostAnalyze "js_error + jsstring"
  | PostReset
  | PostKnowledgeFile "json option" "json option" int "js_error option"
  | GetKnowledgeFiles "js_error option"
  | DeleteKnowledgeFile nat "js_error option"

fun handle ::
  "(jsstring \<Rightarrow> js_error + json) \<Rightarrow> request \<Rightarrow> server \<Rightarrow> response \<times> server" where
  "handle parse (PostChat msg now fault reply) s = chat msg now fault reply s"
| "handle parse (PostAnalyze reply) s = analyze parse reply s"
| "handle parse PostReset s = reset s"
| "handle parse (PostKnowledgeFile fname fcontent ts fault) s =
     knowledgeFilePost fname fcontent ts fault s"
| "handle parse (GetKnowledgeFiles fault) s = knowledgeFilesGet fault s"
| "handle parse (DeleteKnowledgeFile i fault) s = knowledgeFileDelete i fault s"

fun serve :: "(jsstring \<Rightarrow> js_error + json) \<Rightarrow> request list \<Rightarrow> server \<Rightarrow> server" where
  "serve parse [] s = s"
| "serve parse (r # rs) s = serve parse rs (snd (handle parse r s))"

section \<open>\<open>GET /manager/reps\<close>: what the handler computes for one rep\<close>

text \<open>
  A JavaScript number is an IEEE 754 binary64 value: a finite one is the rational it
  stands for, and there are the two infinities and \<open>NaN\<close>. The sign of a zero is not
  modelled (no division by a zero occurs and JSON writes both zeros as \<open>0\<close>).
  \<open>toDouble\<close> rounds a rational to the nearest double, a tie going to the even
  significand, with gradual underflow below \<open>2^-1022\<close> and overflow to infinity; it is
  what \<open>JSON.parse\<close> does to a number of the text and what every operation does to its
  exact result.
\<close>

datatype jsnumber = Num rat | PosInfinity | NegInfinity | NaN

definition pow2 :: "int \<Rightarrow> rat" where
  "pow2 e = (if 0 \<le> e then 2 ^ nat e else 1 / 2 ^ nat (- e))"

text \<open>For \<open>x > 0\<close>, the exponent \<open>e\<close> with \<open>2^e \<le> x < 2^(e+1)\<close>.\<close>

definition floorLog2 :: "rat \<Rightarrow> int" where
  "floorLog2 x =
     (case quotient_of x of (p, q) \<Rightarrow>
        (let e = bitlen p - bitlen q in if pow2 e \<le> x then e else e - 1))"

definition roundHalfEven :: "rat \<Rightarrow> int" where
  "roundHalfEven x =
     (let f = \<lfloor>x\<rfloor>; d = x - of_int f
      in if d < 1 / 2 then f else if 1 / 2 < d then f + 1 else if even f then f else f + 1)"

definition toDouble :: "rat \<Rightarrow> jsnumber" where
  "toDouble x =
     (if x = 0 then Num 0
      else (let a = \<bar>x\<bar>;
                e = max (floorLog2 a) (- 1022);
                ulp = pow2 (e - 52);
                y = of_int (roundHalfEven (a / ulp)) * ulp
            in if pow2 1024 \<le> y then (if 0 < x then PosInfinity else NegInfinity)
               else Num (if x < 0 then - y else y)))"

text \<open>The operators \<open>+\<close>, \<open>-\<close> and \<open>/\<close> on numbers.\<close>

fun jsAdd :: "jsnumber \<Rightarrow> jsnumber \<Rightarrow> jsnumber" where
  "jsAdd (Num a) (Num b) = toDouble (a + b)"
| "jsAdd NaN y = NaN"
| "jsAdd x NaN = NaN"
| "jsAdd PosInfinity NegInfinity = NaN"
| "jsAdd NegInfinity PosInfinity = NaN"
| "jsAdd PosInfinity y = PosInfinity"
| "jsAdd NegInfinity y = NegInfinity"
| "jsAdd x PosInfinity = PosInfinity"
| "jsAdd x NegInfinity = NegInfinity"

fun jsNegate :: "jsnumber \<Rightarrow> jsnumber" where
  "jsNegate (Num a) = Num (- a)"
| "jsNegate PosInfinity = NegInfinity"
| "jsNegate NegInfinity = PosInfinity"
| "jsNegate NaN = NaN"

definition jsSubtract :: "jsnumber \<Rightarrow> jsnumber \<Rightarrow> jsnumber" where
  "jsSubtract x y = jsAdd x (jsNegate y)"

fun jsDivide :: "jsnumber \<Rightarrow> jsnumber \<Rightarrow> jsnumber" where
  "jsDivide (Num a) (Num b) =
     (if b = 0 then (if a = 0 then NaN else if 0 < a then PosInfinity else NegInfinity)
      else toDouble (a / b))"
| "jsDivide NaN y = NaN"
| "jsDivide x NaN = NaN"
| "jsDivide (Num a) y = Num 0"
| "jsDivide PosInfinity (Num b) = (if 0 \<le> b then PosInfinity else NegInfinity)"
| "jsDivide NegInfinity (Num b) = (if 0 \<le> b then NegInfinity else PosInfinity)"
| "jsDivide x y = NaN"

text \<open>
  \<open>Math.round\<close>: the nearest integer, a tie going up; an infinity and \<open>NaN\<close> are
  returned as they are.
\<close>

fun Math_round :: "jsnumber \<Rightarrow> jsnumber" where
  "Math_round (Num x) = Num (of_int \<lfloor>x + 1 / 2\<rfloor>)"
| "Math_round x = x"

text \<open>
  An element of \<open>all_analyses\<close>. A field that is absent or \<open>null\<close> is \<open>None\<close>; a score
  that is there is a number, as the analysis prompt asks, held as the JSON text writes
  it. The handler reads it as a double.
\<close>

record catEntry =
  score :: "rat option"
  feedback :: "jsstring option"

record analysis =
  overall :: "rat option"
  breakdown :: "(jsstring \<rightharpoonup> catEntry) option"
  summary :: "jsstring option"
  keyStrength :: "jsstring option"
  keyImprovement :: "jsstring option"

text \<open>\<open>.reduce((a, b) => a + b, 0)\<close>\<close>

definition reduceSum :: "jsnumber list \<Rightarrow> jsnumber" where
  "reduceSum xs = foldl (\<lambda>a b. jsAdd a b) (Num 0) xs"

text \<open>\<open>a.overall || 0\<close>: an absent or zero score is \<open>0\<close>.\<close>

definition overallOrZero :: "analysis \<Rightarrow> jsnumber" where
  "overallOrZero a =
     (case overall a of
        None \<Rightarrow> Num 0
      | Some v \<Rightarrow> if toDouble v \<noteq> Num 0 then toDouble v else Num 0)"

definition improvement :: "analysis list \<Rightarrow> jsnumber option" where
  "improvement analyses =
     (let scores = map overallOrZero analyses
      in if length scores \<ge> 4 then
           (let half = length scores div 2;
                newer = jsDivide (reduceSum (slice 0 (Some (int half)) scores))
                          (Num (of_nat half));
                older = jsDivide (reduceSum (slice (- int half) None scores))
                          (Num (of_nat half))
            in Some (Math_round (jsSubtract newer older)))
         else None)"

definition latestScore :: "analysis list \<Rightarrow> jsnumber" where
  "latestScore analyses = (case map overallOrZero analyses of [] \<Rightarrow> Num 0 | x # _ \<Rightarrow> x)"

definition catKeys :: "jsstring list" where
  "catKeys = [js ''opening'', js ''objectionHandling'', js ''rapport'', js ''tonality'',
              js ''timing'', js ''closing'']"

text \<open>\<open>a.breakdown?.[k]?.score\<close>\<close>

definition categoryScore :: "jsstring \<Rightarrow> analysis \<Rightarrow> jsnumber option" where
  "categoryScore k a =
     (case breakdown a of
        None \<Rightarrow> None
      | Some b \<Rightarrow> (case b k of None \<Rightarrow> None | Some e \<Rightarrow> map_option toDouble (score e)))"

definition catAvg :: "analysis list \<Rightarrow> jsstring \<Rightarrow> jsnumber option" where
  "catAvg analyses k =
     (let vals = map the (filter (\<lambda>v. v \<noteq> None) (map (categoryScore k) analyses))
      in if length vals \<noteq> 0
         then Some (Math_round (jsDivide (reduceSum vals) (Num (of_nat (length vals)))))
         else None)"

definition catAvgs :: "analysis list \<Rightarrow> (jsstring \<times> jsnumber option) list" where
  "catAvgs analyses = map (\<lambda>k. (k, catAvg analyses k)) catKeys"

definition topIssues :: "analysis list \<Rightarrow> jsstring list" where
  "topIssues analyses =
     slice 0 (Some 3)
       (map the (filter (\<lambda>i. i \<noteq> None \<and> i \<noteq> Some [])
                   (map keyImprovement analyses)))"

section \<open>The extraction of the analysis: what the two regular expressions find\<close>

lemma not_space_simps [simp]: "\<not> isSpace BACKTICK" "\<not> isSpace LBRACE" "\<not> isSpace RBRACE"
  by (simp_all add: isSpace_def)

lemma dropWhile_keeps: "\<not> P a \<Longrightarrow> dropWhile P (xs @ a # ys) = dropWhile P xs @ a # ys"
  by (induction xs) simp_all

lemma trim_between:
  assumes "\<not> isSpace a" and "\<not> isSpace b"
  shows "trim (pre @ a # m @ b # post)
         = dropWhile isSpace pre @ a # m @ b # rev (dropWhile isSpace (rev post))"
proof -
  have "rev (dropWhile isSpace pre @ a # m @ b # post)
        = rev post @ b # (rev m @ a # rev (dropWhile isSpace pre))"
    by simp
  then show ?thesis
    using assms by (simp add: trim_def dropWhile_keeps)
qed

lemma fenceMatch_step: "\<not> prefix FENCE (c # r) \<Longrightarrow> fenceMatch (c # r) = fenceMatch r"
  by auto

lemma fenceMatch_none: "\<not> sublist FENCE s \<Longrightarrow> fenceMatch s = None"
proof (induction s)
  case Nil
  then show ?case by simp
next
  case (Cons c r)
  from Cons.prems have "\<not> prefix FENCE (c # r)" and "\<not> sublist FENCE r"
    by (auto simp: sublist_Cons_right)
  have "fenceMatch (c # r) = fenceMatch r"
    using \<open>\<not> prefix FENCE (c # r)\<close> by (rule fenceMatch_step)
  also have "\<dots> = None"
    using \<open>\<not> sublist FENCE r\<close> by (rule Cons.IH)
  finally show ?case .
qed

lemma fenceMatch_skip:
  assumes "\<not> sublist FENCE pre" and "pre = [] \<or> last pre \<noteq> BACKTICK"
  shows "fenceMatch (pre @ x) = fenceMatch x"
  using assms
proof (induction pre)
  case Nil
  then show ?case by simp
next
  case (Cons c r)
  have np: "\<not> prefix FENCE (c # r @ x)"
  proof
    assume p: "prefix FENCE (c # r @ x)"
    show False
    proof (cases r)
      case Nil
      with Cons.prems(2) p show False by simp
    next
      case r1: (Cons d r')
      show False
      proof (cases r')
        case Nil
        with r1 Cons.prems(2) p show False by simp
      next
        case (Cons e r'')
        with r1 p have "prefix FENCE (c # r)" by simp
        with Cons.prems(1) show False by (simp add: sublist_Cons_right)
      qed
    qed
  qed
  from Cons.prems have r: "\<not> sublist FENCE r" "r = [] \<or> last r \<noteq> BACKTICK"
    by (auto simp: sublist_Cons_right split: if_splits)
  have "fenceMatch (c # r @ x) = fenceMatch (r @ x)"
    using np by (rule fenceMatch_step)
  then have "fenceMatch ((c # r) @ x) = fenceMatch (r @ x)"
    by (simp only: append_Cons)
  also have "\<dots> = fenceMatch x"
    using r by (rule Cons.IH)
  finally show ?case .
qed

lemma no_early_close:
  assumes nf: "\<not> sublist FENCE jt"
      and suf: "suffix t jt" and ne: "t \<noteq> []" and l: "last jt = RBRACE"
  shows "\<not> closes (t @ w)"
proof
  assume c: "closes (t @ w)"
  from suf ne l have lt: "last t = RBRACE"
    by (auto simp: suffix_def)
  from ne have "last t \<in> set t" by (rule last_in_set)
  from lt have "\<not> isSpace (last t)" by simp
  with \<open>last t \<in> set t\<close> have dw: "dropWhile isSpace (t @ w) = dropWhile isSpace t @ w"
    by (rule dropWhile_append1)
  define t' where "t' = dropWhile isSpace t"
  have t'ne: "t' \<noteq> []"
    unfolding t'_def using \<open>last t \<in> set t\<close> \<open>\<not> isSpace (last t)\<close> by auto
  have st': "suffix t' t" unfolding t'_def by (rule suffix_dropWhile)
  with t'ne lt have lt': "last t' = RBRACE" by (auto simp: suffix_def)
  from st' suf have "sublist t' jt"
    using suffix_order.trans suffix_imp_sublist by blast
  with nf have nft': "\<not> prefix FENCE t'"
    using prefix_imp_sublist sublist_order.order_trans by blast
  from c dw have p: "prefix FENCE (t' @ w)" by (simp add: closes_def t'_def)
  show False
  proof (cases t')
    case Nil
    with t'ne show False by simp
  next
    case c1: (Cons x r)
    show False
    proof (cases r)
      case Nil
      with c1 lt' p show False by simp
    next
      case c2: (Cons y r')
      show False
      proof (cases r')
        case Nil
        with c1 c2 lt' p show False by simp
      next
        case (Cons z r'')
        with c1 c2 p nft' show False by simp
      qed
    qed
  qed
qed

lemma lazyCapture_whole:
  assumes "\<forall>t. suffix t jt \<and> t \<noteq> [] \<longrightarrow> \<not> closes (t @ w)"
      and "closes w" and "jt \<noteq> []"
  shows "lazyCapture acc (jt @ w) = Some (acc @ jt)"
  using assms
proof (induction jt arbitrary: acc)
  case Nil
  then show ?case by simp
next
  case (Cons c r)
  show ?case
  proof (cases "r = []")
    case True
    with Cons.prems(2) show ?thesis by simp
  next
    case False
    have "suffix r (c # r)" by (simp add: suffix_Cons)
    with Cons.prems(1) False have nc: "\<not> closes (r @ w)" by blast
    have "\<forall>t. suffix t r \<and> t \<noteq> [] \<longrightarrow> \<not> closes (t @ w)"
      using Cons.prems(1) by (simp add: suffix_Cons)
    with Cons.IH [of "acc @ [c]"] Cons.prems(2) False nc show ?thesis by simp
  qed
qed

lemma spacesThenCapture_spaces:
  "\<forall>c\<in>set ws. isSpace c \<Longrightarrow> spacesThenCapture x = Some g \<Longrightarrow> spacesThenCapture (ws @ x) = Some g"
  by (induction ws) simp_all

lemma closes_fence: "\<forall>c\<in>set ws. isSpace c \<Longrightarrow> closes (ws @ FENCE @ post)"
  by (induction ws) (simp_all add: closes_def)

lemma spacesThenCapture_body:
  assumes nf: "\<not> sublist FENCE (LBRACE # mid @ [RBRACE])"
      and w1: "\<forall>c\<in>set ws1. isSpace c" and w2: "\<forall>c\<in>set ws2. isSpace c"
  shows "spacesThenCapture (ws1 @ (LBRACE # mid @ [RBRACE]) @ ws2 @ FENCE @ post)
         = Some (LBRACE # mid @ [RBRACE])"
proof -
  let ?jt = "LBRACE # mid @ [RBRACE]" and ?w = "ws2 @ FENCE @ post"
  have "\<forall>t. suffix t ?jt \<and> t \<noteq> [] \<longrightarrow> \<not> closes (t @ ?w)"
    using no_early_close [OF nf] by simp
  then have "lazyCapture [] (?jt @ ?w) = Some ([] @ ?jt)"
    using closes_fence [OF w2] by (intro lazyCapture_whole) simp_all
  then have "spacesThenCapture (?jt @ ?w) = Some ?jt" by simp
  then show ?thesis using w1 by (rule spacesThenCapture_spaces [rotated])
qed

lemma afterFence_body:
  assumes nf: "\<not> sublist FENCE (LBRACE # mid @ [RBRACE])"
      and w1: "\<forall>c\<in>set ws1. isSpace c" and w2: "\<forall>c\<in>set ws2. isSpace c"
      and tag: "tag = [] \<or> tag = js ''json''"
  shows "afterFence (tag @ ws1 @ (LBRACE # mid @ [RBRACE]) @ ws2 @ FENCE @ post)
         = Some (LBRACE # mid @ [RBRACE])"
proof -
  note stc = spacesThenCapture_body [OF nf w1 w2, of post]
  from tag show ?thesis
  proof
    assume t: "tag = []"
    have "\<not> prefix (js ''json'') (ws1 @ (LBRACE # mid @ [RBRACE]) @ ws2 @ FENCE @ post)"
      using w1 by (cases ws1) (auto simp: js_def isSpace_def)
    with stc t show ?thesis by (simp add: afterFence_def)
  next
    assume t: "tag = js ''json''"
    then have "length tag = 4" and "prefix (js ''json'') (tag @ r)" for r
      by (simp_all add: js_def)
    with stc t show ?thesis by (simp add: afterFence_def)
  qed
qed

lemma greedyToBrace_none: "RBRACE \<notin> set post \<Longrightarrow> greedyToBrace post = None"
  by (induction post) simp_all

lemma greedyToBrace_last:
  "RBRACE \<notin> set post \<Longrightarrow> greedyToBrace (mid @ RBRACE # post) = Some (mid @ [RBRACE])"
  by (induction mid) (simp_all add: greedyToBrace_none)

lemma braceMatch_outermost:
  "LBRACE \<notin> set pre \<Longrightarrow> RBRACE \<notin> set post \<Longrightarrow>
   braceMatch (pre @ LBRACE # mid @ RBRACE # post) = Some (LBRACE # mid @ [RBRACE])"
  by (induction pre) (simp_all add: greedyToBrace_last)

lemma sublist_trim: "sublist (trim s) s"
proof -
  have "sublist (dropWhile isSpace (rev (dropWhile isSpace s))) (rev (dropWhile isSpace s))"
    by (rule sublist_dropWhile)
  then have "sublist (trim s) (dropWhile isSpace s)"
    by (simp add: trim_def sublist_rev_left)
  moreover have "sublist (dropWhile isSpace s) s" by (rule sublist_dropWhile)
  ultimately show ?thesis by (rule sublist_order.order_trans)
qed

lemma trim_object: "trim (LBRACE # mid @ [RBRACE]) = LBRACE # mid @ [RBRACE]"
  using trim_between [of LBRACE RBRACE "[]" mid "[]"] by simp

lemma match_plain:
  assumes "\<not> sublist FENCE (pre @ (LBRACE # mid @ [RBRACE]) @ post)"
  shows "trim (pre @ (LBRACE # mid @ [RBRACE]) @ post)
         = dropWhile isSpace pre @ LBRACE # mid @ RBRACE # rev (dropWhile isSpace (rev post))"
    and "fenceMatch (trim (pre @ (LBRACE # mid @ [RBRACE]) @ post)) = None"
proof -
  let ?raw = "pre @ (LBRACE # mid @ [RBRACE]) @ post"
  show "trim ?raw
        = dropWhile isSpace pre @ LBRACE # mid @ RBRACE # rev (dropWhile isSpace (rev post))"
    using trim_between [of LBRACE RBRACE pre mid post] by simp
  have "\<not> sublist FENCE (trim ?raw)"
    using assms sublist_trim [of ?raw] sublist_order.order_trans by blast
  then show "fenceMatch (trim ?raw) = None" by (rule fenceMatch_none)
qed

lemma candidate_plain:
  assumes "\<not> sublist FENCE (pre @ (LBRACE # mid @ [RBRACE]) @ post)"
      and "LBRACE \<notin> set pre" and "RBRACE \<notin> set post"
  shows "analysisCandidate (pre @ (LBRACE # mid @ [RBRACE]) @ post) = LBRACE # mid @ [RBRACE]"
proof -
  let ?raw = "pre @ (LBRACE # mid @ [RBRACE]) @ post"
  let ?pre' = "dropWhile isSpace pre" and ?post' = "rev (dropWhile isSpace (rev post))"
  note t = match_plain(1) [OF assms(1)] and f = match_plain(2) [OF assms(1)]
  have "LBRACE \<notin> set ?pre'" using assms(2) set_dropWhileD by fast
  moreover have "RBRACE \<notin> set ?post'" using assms(3) set_dropWhileD by fastforce
  ultimately have "braceMatch (trim ?raw) = Some (LBRACE # mid @ [RBRACE])"
    unfolding t by (rule braceMatch_outermost)
  with f show ?thesis by (simp add: analysisCandidate_def)
qed

lemma match_fenced:
  assumes nf: "\<not> sublist FENCE (LBRACE # mid @ [RBRACE])"
      and tag: "tag = [] \<or> tag = js ''json''"
      and b1: "\<not> sublist FENCE before" and b2: "before = [] \<or> last before \<noteq> BACKTICK"
      and w1: "\<forall>c\<in>set ws1. isSpace c" and w2: "\<forall>c\<in>set ws2. isSpace c"
  shows "fenceMatch (trim (before @ FENCE @ tag @ ws1 @ (LBRACE # mid @ [RBRACE]) @ ws2 @ FENCE @ after))
         = Some (LBRACE # mid @ [RBRACE])"
proof -
  let ?jt = "LBRACE # mid @ [RBRACE]"
  let ?raw = "before @ FENCE @ tag @ ws1 @ ?jt @ ws2 @ FENCE @ after"
  let ?b = "dropWhile isSpace before" and ?a = "rev (dropWhile isSpace (rev after))"
  have "trim (before @ BACKTICK # ([BACKTICK, BACKTICK] @ tag @ ws1 @ ?jt @ ws2 @ [BACKTICK, BACKTICK]) @ BACKTICK # after)
        = ?b @ BACKTICK # ([BACKTICK, BACKTICK] @ tag @ ws1 @ ?jt @ ws2 @ [BACKTICK, BACKTICK]) @ BACKTICK # ?a"
    by (rule trim_between) simp_all
  then have t: "trim ?raw = ?b @ FENCE @ tag @ ws1 @ ?jt @ ws2 @ FENCE @ ?a" by simp
  have "sublist ?b before" by (rule sublist_dropWhile)
  with b1 have b1': "\<not> sublist FENCE ?b"
    using sublist_order.order_trans by blast
  have b2': "?b = [] \<or> last ?b \<noteq> BACKTICK"
  proof (cases "?b = []")
    case True
    then show ?thesis by simp
  next
    case False
    define b' where "b' = ?b"
    have "suffix b' before" unfolding b'_def by (rule suffix_dropWhile)
    then obtain zs where z: "before = zs @ b'" by (auto simp: suffix_def)
    from False have "b' \<noteq> []" by (simp add: b'_def)
    then have "last (zs @ b') = last b'" by (rule last_appendR)
    with z \<open>b' \<noteq> []\<close> b2 have "last b' \<noteq> BACKTICK" by auto
    then show ?thesis by (simp add: b'_def)
  qed
  have "fenceMatch (trim ?raw) = fenceMatch (FENCE @ tag @ ws1 @ ?jt @ ws2 @ FENCE @ ?a)"
    unfolding t using b1' b2' by (rule fenceMatch_skip)
  also have "\<dots> = Some ?jt"
    using afterFence_body [OF nf w1 w2 tag, of ?a] by simp
  finally show ?thesis .
qed

lemma candidate_fenced:
  assumes nf: "\<not> sublist FENCE (LBRACE # mid @ [RBRACE])"
      and tag: "tag = [] \<or> tag = js ''json''"
      and b1: "\<not> sublist FENCE before" and b2: "before = [] \<or> last before \<noteq> BACKTICK"
      and w1: "\<forall>c\<in>set ws1. isSpace c" and w2: "\<forall>c\<in>set ws2. isSpace c"
  shows "analysisCandidate (before @ FENCE @ tag @ ws1 @ (LBRACE # mid @ [RBRACE]) @ ws2 @ FENCE @ after)
         = LBRACE # mid @ [RBRACE]"
proof -
  let ?jt = "LBRACE # mid @ [RBRACE]"
  note f = match_fenced [OF nf tag b1 b2 w1 w2, of after]
  have "braceMatch ?jt = Some ?jt"
    using braceMatch_outermost [of "[]" "[]" mid] by simp
  with f show ?thesis by (simp add: analysisCandidate_def)
qed

lemma analyze_ok:
  "conversationHistory s \<noteq> [] \<Longrightarrow> extractAnalysis parse text = Inr a \<Longrightarrow>
   analyze parse (Inr text) s = (\<lparr>status = 200, body = AnalysisBody a\<rparr>, s)"
  by (simp add: analyze_def)

text \<open>
  Claim C1, as amended. Let \<open>jt\<close> be a text that starts with \<open>{\<close>, ends with \<open>}\<close>,
  holds no three backticks in a row, and that the parser reads as \<open>obj\<close> (the JSON text
  of an object has this form). Then the extraction returns \<open>obj\<close> from \<open>jt\<close> itself;
  from \<open>jt\<close> in a code fence with or without the tag \<open>json\<close>, with white space
  around \<open>jt\<close> inside the fence, any text after the fence, and before it any text that
  holds no three backticks in a row and does not end in a backtick; and from \<open>jt\<close>
  between prose that has no \<open>{\<close> before it, no \<open>}\<close> after it and no three backticks
  in a row anywhere. The earlier revision without the second regular expression
  returns \<open>obj\<close> from \<open>jt\<close> itself and from the fenced text. The parser is any function:
  the theorem is about the regular expressions and the trimming.
\<close>

theorem extractAnalysis_tolerated_shapes:
  assumes parse: "parse jt = Inr obj"
      and shape: "jt = LBRACE # mid @ [RBRACE]"
      and nofence: "\<not> sublist FENCE jt"
  shows "extractAnalysis parse jt = Inr obj
       \<and> ((tag = [] \<or> tag = js ''json'') \<and> \<not> sublist FENCE before
            \<and> (before = [] \<or> last before \<noteq> BACKTICK)
            \<and> (\<forall>c\<in>set ws1. isSpace c) \<and> (\<forall>c\<in>set ws2. isSpace c)
          \<longrightarrow> extractAnalysis parse (before @ FENCE @ tag @ ws1 @ jt @ ws2 @ FENCE @ after) = Inr obj
            \<and> extractAnalysisFenceOnly parse
                 (before @ FENCE @ tag @ ws1 @ jt @ ws2 @ FENCE @ after) = Inr obj)
       \<and> (LBRACE \<notin> set pre \<and> RBRACE \<notin> set post \<and> \<not> sublist FENCE (pre @ jt @ post)
          \<longrightarrow> extractAnalysis parse (pre @ jt @ post) = Inr obj)
       \<and> extractAnalysisFenceOnly parse jt = Inr obj"
proof (intro conjI impI)
  have "analysisCandidate ([] @ jt @ []) = jt"
    unfolding shape using nofence [unfolded shape] by (intro candidate_plain) simp_all
  with parse show "extractAnalysis parse jt = Inr obj"
    by (simp add: extractAnalysis_def)
next
  assume a: "(tag = [] \<or> tag = js ''json'') \<and> \<not> sublist FENCE before
            \<and> (before = [] \<or> last before \<noteq> BACKTICK)
            \<and> (\<forall>c\<in>set ws1. isSpace c) \<and> (\<forall>c\<in>set ws2. isSpace c)"
  have "analysisCandidate (before @ FENCE @ tag @ ws1 @ jt @ ws2 @ FENCE @ after) = jt"
    unfolding shape using nofence [unfolded shape] a by (intro candidate_fenced) simp_all
  with parse show "extractAnalysis parse (before @ FENCE @ tag @ ws1 @ jt @ ws2 @ FENCE @ after) = Inr obj"
    by (simp add: extractAnalysis_def)
next
  assume a: "(tag = [] \<or> tag = js ''json'') \<and> \<not> sublist FENCE before
            \<and> (before = [] \<or> last before \<noteq> BACKTICK)
            \<and> (\<forall>c\<in>set ws1. isSpace c) \<and> (\<forall>c\<in>set ws2. isSpace c)"
  have "fenceMatch (trim (before @ FENCE @ tag @ ws1 @ jt @ ws2 @ FENCE @ after)) = Some jt"
    unfolding shape using nofence [unfolded shape] a by (intro match_fenced) simp_all
  with parse
  show "extractAnalysisFenceOnly parse (before @ FENCE @ tag @ ws1 @ jt @ ws2 @ FENCE @ after) = Inr obj"
    by (simp add: extractAnalysisFenceOnly_def)
next
  assume a: "LBRACE \<notin> set pre \<and> RBRACE \<notin> set post \<and> \<not> sublist FENCE (pre @ jt @ post)"
  have "analysisCandidate (pre @ jt @ post) = jt"
    unfolding shape using a [unfolded shape] by (intro candidate_plain) simp_all
  with parse show "extractAnalysis parse (pre @ jt @ post) = Inr obj"
    by (simp add: extractAnalysis_def)
next
  have "fenceMatch (trim jt) = None"
    using match_plain(2) [of "[]" mid "[]"] nofence by (simp add: shape)
  with parse show "extractAnalysisFenceOnly parse jt = Inr obj"
    by (simp add: extractAnalysisFenceOnly_def shape trim_object)
qed

text \<open>
  The three shapes on the text \<open>{"overall":80}\<close>: bare, in a tagged fence between two
  lines of prose, and between prose without a fence.
\<close>

theorem extractAnalysis_tolerated_shapes_witness:
  \<open>extractAnalysis JSON_parse (js ''{"overall":80}'') = Inr (JObject [(js ''overall'', JNumber 80)])
   \<and> extractAnalysis JSON_parse
        (js ''Here you go:'' @ [0xA] @ js ''```json'' @ [0xA] @ js ''{"overall":80}'' @ [0xA]
         @ js ''```'' @ [0xA] @ js ''Thanks!'')
       = Inr (JObject [(js ''overall'', JNumber 80)])
   \<and> extractAnalysis JSON_parse (js ''Sure! {"overall":80} Hope it helps.'')
       = Inr (JObject [(js ''overall'', JNumber 80)])
   \<and> extractAnalysisFenceOnly JSON_parse
        (js ''Here you go:'' @ [0xA] @ js ''```json'' @ [0xA] @ js ''{"overall":80}'' @ [0xA]
         @ js ''```'' @ [0xA] @ js ''Thanks!'')
       = Inr (JObject [(js ''overall'', JNumber 80)])\<close>
proof -
  let ?jt = \<open>js ''{"overall":80}''\<close> and ?obj = "JObject [(js ''overall'', JNumber 80)]"
  have p: "JSON_parse ?jt = Inr ?obj" by code_simp
  have sh: \<open>?jt = LBRACE # js ''"overall":80'' @ [RBRACE]\<close> by (simp add: js_def)
  have nf: "\<not> sublist FENCE ?jt"
    by (simp add: js_def sublist_Cons_right)
  have b: "\<not> sublist FENCE (js ''Here you go:'' @ [0xA])"
    by (simp add: js_def sublist_Cons_right)
  have w: \<open>\<not> sublist FENCE (js ''Sure! '' @ ?jt @ js '' Hope it helps.'')\<close>
    by (simp add: js_def sublist_Cons_right)
  from extractAnalysis_tolerated_shapes
         [of JSON_parse ?jt ?obj \<open>js ''"overall":80''\<close> "js ''json''"
            "js ''Here you go:'' @ [0xA]" "[0xA]" "[0xA]"
            "[0xA] @ js ''Thanks!''" "js ''Sure! ''" "js '' Hope it helps.''", OF p sh nf]
       b w
  show ?thesis by (simp add: js_def isSpace_def)
qed

text \<open>
  Claim C1 as the specification states it fails: the round trip breaks on an object
  of the analysis record's shape whose summary quotes something between two code
  fences. The JSON text parses, but the first regular expression matches inside the
  string, the candidate is \<open>no\<close>, and the extraction throws.
\<close>

theorem extractAnalysis_roundtrip_counterexample:
  \<open>let text = js ''{"overall":80,"breakdown":{"opening":{"score":80,"feedback":"ok"},"objectionHandling":{"score":80,"feedback":"ok"},"rapport":{"score":80,"feedback":"ok"},"tonality":{"score":80,"feedback":"ok"},"timing":{"score":80,"feedback":"ok"},"closing":{"score":80,"feedback":"ok"}},"summary":"Said ```no``` twice","keyStrength":"a","keyImprovement":"b"}''
   in JSON_parse text
        = Inr (JObject
            [(js ''overall'', JNumber 80),
             (js ''breakdown'', JObject
               [(js ''opening'', JObject [(js ''score'', JNumber 80), (js ''feedback'', JString (js ''ok''))]),
                (js ''objectionHandling'', JObject [(js ''score'', JNumber 80), (js ''feedback'', JString (js ''ok''))]),
                (js ''rapport'', JObject [(js ''score'', JNumber 80), (js ''feedback'', JString (js ''ok''))]),
                (js ''tonality'', JObject [(js ''score'', JNumber 80), (js ''feedback'', JString (js ''ok''))]),
                (js ''timing'', JObject [(js ''score'', JNumber 80), (js ''feedback'', JString (js ''ok''))]),
                (js ''closing'', JObject [(js ''score'', JNumber 80), (js ''feedback'', JString (js ''ok''))])]),
             (js ''summary'', JString (js ''Said ```no``` twice'')),
             (js ''keyStrength'', JString (js ''a'')),
             (js ''keyImprovement'', JString (js ''b''))])
      \<and> analysisCandidate text = js ''no''
      \<and> extractAnalysis JSON_parse text = JSON_parse (js ''no'')
      \<and> (case JSON_parse (js ''no'') of Inl (SyntaxError m) \<Rightarrow> True | _ \<Rightarrow> False)\<close>
proof -
  let ?text = \<open>js ''{"overall":80,"breakdown":{"opening":{"score":80,"feedback":"ok"},"objectionHandling":{"score":80,"feedback":"ok"},"rapport":{"score":80,"feedback":"ok"},"tonality":{"score":80,"feedback":"ok"},"timing":{"score":80,"feedback":"ok"},"closing":{"score":80,"feedback":"ok"}},"summary":"Said ```no``` twice","keyStrength":"a","keyImprovement":"b"}''\<close>
  have p: \<open>JSON_parse ?text
        = Inr (JObject
            [(js ''overall'', JNumber 80),
             (js ''breakdown'', JObject
               [(js ''opening'', JObject [(js ''score'', JNumber 80), (js ''feedback'', JString (js ''ok''))]),
                (js ''objectionHandling'', JObject [(js ''score'', JNumber 80), (js ''feedback'', JString (js ''ok''))]),
                (js ''rapport'', JObject [(js ''score'', JNumber 80), (js ''feedback'', JString (js ''ok''))]),
                (js ''tonality'', JObject [(js ''score'', JNumber 80), (js ''feedback'', JString (js ''ok''))]),
                (js ''timing'', JObject [(js ''score'', JNumber 80), (js ''feedback'', JString (js ''ok''))]),
                (js ''closing'', JObject [(js ''score'', JNumber 80), (js ''feedback'', JString (js ''ok''))])]),
             (js ''summary'', JString (js ''Said ```no``` twice'')),
             (js ''keyStrength'', JString (js ''a'')),
             (js ''keyImprovement'', JString (js ''b''))])\<close>
    by code_simp
  have c: "analysisCandidate ?text = js ''no''"
    by (simp add: analysisCandidate_def trim_def js_def afterFence_def closes_def isSpace_def)
  have n: "JSON_parse (js ''no'') = Inl (SyntaxError (js ''Unexpected token o in JSON at position 1''))"
    by code_simp
  from c have e: "extractAnalysis JSON_parse ?text = JSON_parse (js ''no'')"
    by (simp add: extractAnalysis_def)
  have s: "(case JSON_parse (js ''no'') of Inl (SyntaxError m) \<Rightarrow> True | _ \<Rightarrow> False)"
    by (simp add: n)
  from p c e s show ?thesis by (simp only: Let_def simp_thms)
qed

text \<open>
  The earlier revision does not recover an object from prose around it: the whole
  trimmed text goes to the parser.
\<close>

lemma extractAnalysisFenceOnly_prose:
  \<open>extractAnalysisFenceOnly JSON_parse (js ''Sure! {"overall":80} Hope it helps.'')
   = Inl (SyntaxError (js ''Unexpected token S in JSON at position 0''))\<close>
proof -
  have \<open>fenceMatch (trim (js ''Sure! {"overall":80} Hope it helps.'')) = None\<close>
    and \<open>trim (js ''Sure! {"overall":80} Hope it helps.'') = js ''Sure! {"overall":80} Hope it helps.''\<close>
    by (simp_all add: trim_def js_def afterFence_def closes_def isSpace_def)
  moreover have \<open>JSON_parse (js ''Sure! {"overall":80} Hope it helps.'')
                 = Inl (SyntaxError (js ''Unexpected token S in JSON at position 0''))\<close>
    by code_simp
  ultimately show ?thesis by (simp add: extractAnalysisFenceOnly_def)
qed

section \<open>\<open>POST /analyze\<close> on a text that is no JSON\<close>

text \<open>
  Claim C2, as amended. When the parser rejects the candidate, the handler answers
  HTTP 500 with the message of the parser's error as the \<open>error\<close> of the body, and
  prints that same message after the label \<open>Analyze error:\<close>. The state is otherwise
  unchanged: the text of the model is kept nowhere.
\<close>

theorem analyze_malformed:
  assumes "conversationHistory s \<noteq> []"
      and "parse (analysisCandidate text) = Inl err"
  shows "analyze parse (Inr text) s
         = (\<lparr>status = 500, body = ErrorBody (message err)\<rparr>,
            s\<lparr>console := console s @ [(js ''Analyze error:'', message err)]\<rparr>)"
  using assms by (simp add: analyze_def extractAnalysis_def caught_def)

text \<open>On \<open>garbled non-json text\<close> no regular expression matches and the candidate is the text itself.\<close>

theorem analyze_malformed_witness:
  "analysisCandidate (js ''garbled non-json text'') = js ''garbled non-json text''
   \<and> analyze JSON_parse (Inr (js ''garbled non-json text''))
         (initial\<lparr>conversationHistory := [\<lparr>role = User, content = js ''Hi there''\<rparr>]\<rparr>)
       = (\<lparr>status = 500, body = ErrorBody (js ''Unexpected token g in JSON at position 0'')\<rparr>,
          initial\<lparr>conversationHistory := [\<lparr>role = User, content = js ''Hi there''\<rparr>],
                  console := [(js ''Analyze error:'', js ''Unexpected token g in JSON at position 0'')]\<rparr>)"
proof -
  let ?s = "initial\<lparr>conversationHistory := [\<lparr>role = User, content = js ''Hi there''\<rparr>]\<rparr>"
  have c: "analysisCandidate (js ''garbled non-json text'') = js ''garbled non-json text''"
    by (simp add: analysisCandidate_def trim_def js_def afterFence_def closes_def isSpace_def)
  have "JSON_parse (js ''garbled non-json text'')
        = Inl (SyntaxError (js ''Unexpected token g in JSON at position 0''))"
    by code_simp
  with c have p: "JSON_parse (analysisCandidate (js ''garbled non-json text''))
        = Inl (SyntaxError (js ''Unexpected token g in JSON at position 0''))"
    by simp
  have h: "conversationHistory ?s \<noteq> []" by simp
  from analyze_malformed [of ?s JSON_parse "js ''garbled non-json text''", OF h p] c show ?thesis by (simp add: initial_def)
qed

text \<open>
  Claim C2 as the specification states it fails on \<open>garbled non-json text\<close>: the one
  line printed holds exactly the message the end user is sent, so the text cannot be
  both kept for the logs and kept from the user, and the user's message is the
  parser's, not a generic one.
\<close>

theorem analyze_garbled_counterexample:
  "(let (res, s') = analyze JSON_parse (Inr (js ''garbled non-json text''))
                      (initial\<lparr>conversationHistory := [\<lparr>role = User, content = js ''Hi there''\<rparr>]\<rparr>)
    in status res = 500
       \<and> (case body res of
            ErrorBody m \<Rightarrow> console s' = [(js ''Analyze error:'', m)]
          | _ \<Rightarrow> False))"
proof -
  have c: "analysisCandidate (js ''garbled non-json text'') = js ''garbled non-json text''"
    by (simp add: analysisCandidate_def trim_def js_def afterFence_def closes_def isSpace_def)
  have "JSON_parse (js ''garbled non-json text'')
        = Inl (SyntaxError (js ''Unexpected token g in JSON at position 0''))"
    by code_simp
  with c show ?thesis
    by (simp add: analyze_def extractAnalysis_def caught_def initial_def)
qed

section \<open>\<open>POST /chat\<close>: the rep's turn\<close>

lemma trim_Nil [simp]: "trim [] = []"
  by (simp add: trim_def)

lemma getKnowledgeBase_history [simp]:
  "conversationHistory (snd (getKnowledgeBase now fault s)) = conversationHistory s"
  by (simp add: getKnowledgeBase_def Let_def split: option.splits)

lemma getKnowledgeBase_console [simp]:
  "console (snd (getKnowledgeBase now fault s)) = console s"
  by (simp add: getKnowledgeBase_def Let_def split: option.splits)

lemma buildSystemPrompt_history [simp]:
  "conversationHistory (snd (buildSystemPrompt now fault s)) = conversationHistory s"
proof -
  have "snd (buildSystemPrompt now fault s) = snd (getKnowledgeBase now fault s)"
    by (simp add: buildSystemPrompt_def split: prod.splits sum.splits)
  then show ?thesis by simp
qed

lemma buildSystemPrompt_console [simp]:
  "console (snd (buildSystemPrompt now fault s)) = console s"
proof -
  have "snd (buildSystemPrompt now fault s) = snd (getKnowledgeBase now fault s)"
    by (simp add: buildSystemPrompt_def split: prod.splits sum.splits)
  then show ?thesis by simp
qed

lemma buildSystemPrompt_no_fault:
  "\<exists>p. fst (buildSystemPrompt now None s) = Inr p"
  by (simp add: buildSystemPrompt_def getKnowledgeBase_def Let_def)

lemma appendRep_string:
  "appendRep (Some (JString m)) s =
     (if trim m = [] then
        Inl (\<lparr>status = 400, body = ErrorBody (js ''Message is required.'')\<rparr>, s)
      else Inr (s\<lparr>conversationHistory :=
                    conversationHistory s @ [\<lparr>role = User, content = m\<rparr>]\<rparr>))"
  by (auto simp: appendRep_def)

text \<open>
  Claim C5. For a string \<open>m\<close> that is not empty after trimming, the append pushes the
  turn \<open>{role: 'user', content: m}\<close> (the message as sent, untrimmed) and that turn is
  the last of the history; whatever the rest of the handler does, the history it
  leaves starts with the old history followed by that turn. For a string that is
  empty after trimming (\<open>""\<close>, \<open>"   "\<close>) the append and the handler answer HTTP 400 and
  the state is untouched.
\<close>

theorem chat_append_rep:
  "(trim m \<noteq> [] \<longrightarrow>
      appendRep (Some (JString m)) s
        = Inr (s\<lparr>conversationHistory :=
                   conversationHistory s @ [\<lparr>role = User, content = m\<rparr>]\<rparr>)
      \<and> last (conversationHistory s @ [\<lparr>role = User, content = m\<rparr>])
          = \<lparr>role = User, content = m\<rparr>
      \<and> take (Suc (length (conversationHistory s)))
             (conversationHistory (snd (chat (Some (JString m)) now fault reply s)))
          = conversationHistory s @ [\<lparr>role = User, content = m\<rparr>])
   \<and> (trim m = [] \<longrightarrow>
        appendRep (Some (JString m)) s
          = Inl (\<lparr>status = 400, body = ErrorBody (js ''Message is required.'')\<rparr>, s)
        \<and> chat (Some (JString m)) now fault reply s
          = (\<lparr>status = 400, body = ErrorBody (js ''Message is required.'')\<rparr>, s))"
proof (intro conjI impI)
  assume ne: "trim m \<noteq> []"
  let ?s1 = "s\<lparr>conversationHistory := conversationHistory s @ [\<lparr>role = User, content = m\<rparr>]\<rparr>"
  from ne show a: "appendRep (Some (JString m)) s = Inr ?s1"
    by (simp add: appendRep_string)
  show "last (conversationHistory s @ [\<lparr>role = User, content = m\<rparr>])
        = \<lparr>role = User, content = m\<rparr>"
    by simp
  have h: "conversationHistory (snd (buildSystemPrompt now fault ?s1))
           = conversationHistory s @ [\<lparr>role = User, content = m\<rparr>]"
    by simp
  show "take (Suc (length (conversationHistory s)))
             (conversationHistory (snd (chat (Some (JString m)) now fault reply s)))
          = conversationHistory s @ [\<lparr>role = User, content = m\<rparr>]"
  proof (cases "buildSystemPrompt now fault ?s1")
    case (Pair r s2)
    with h have h2: "conversationHistory s2 = conversationHistory s @ [\<lparr>role = User, content = m\<rparr>]"
      by simp
    with a Pair show ?thesis
      by (simp add: chat_def caught_def split: sum.splits)
  qed
next
  assume "trim m = []"
  then show "appendRep (Some (JString m)) s
          = Inl (\<lparr>status = 400, body = ErrorBody (js ''Message is required.'')\<rparr>, s)"
    by (simp add: appendRep_string)
next
  assume "trim m = []"
  then show "chat (Some (JString m)) now fault reply s
          = (\<lparr>status = 400, body = ErrorBody (js ''Message is required.'')\<rparr>, s)"
    by (simp add: chat_def appendRep_string)
qed

text \<open>A message, the empty string and three spaces.\<close>

theorem chat_append_rep_witness:
  "appendRep (Some (JString (js ''Hi, I am with Acme Roofing''))) initial
     = Inr (initial\<lparr>conversationHistory :=
                     [\<lparr>role = User, content = js ''Hi, I am with Acme Roofing''\<rparr>]\<rparr>)
   \<and> appendRep (Some (JString [])) initial
     = Inl (\<lparr>status = 400, body = ErrorBody (js ''Message is required.'')\<rparr>, initial)
   \<and> chat (Some (JString (js ''   ''))) 0 None (Inr (js ''Not interested.'')) initial
     = (\<lparr>status = 400, body = ErrorBody (js ''Message is required.'')\<rparr>, initial)"
proof -
  have t1: "trim (js ''Hi, I am with Acme Roofing'') \<noteq> []"
    by (simp add: trim_def js_def isSpace_def)
  have t2: "trim [] = []" by simp
  have t3: "trim (js ''   '') = []"
    by (simp add: trim_def js_def isSpace_def)
  from chat_append_rep [of "js ''Hi, I am with Acme Roofing''" initial 0 None "Inr []"] t1
       chat_append_rep [of "[]" initial 0 None "Inr []"] t2
       chat_append_rep [of "js ''   ''" initial 0 None "Inr (js ''Not interested.'')"] t3
  show ?thesis by (auto simp: initial_def)
qed

lemma join_snoc:
  "join sep (xs @ [x]) = (if xs = [] then x else join sep xs @ sep @ x)"
  by (induction sep xs rule: join.induct) simp_all

text \<open>
  Claim C10. When the model call of a chat turn fails (\<open>reply\<close> is an error), the
  handler answers HTTP 500, the history is the old one followed by the rep's turn and
  no homeowner turn, and the transcript rendered for a later scorecard or analysis
  ends with that turn's \<open>SALES REP:\<close> line. The same holds when the knowledge base
  query fails first (\<open>fault\<close>); when it does not, the body and the printed line carry
  the model call's message.
\<close>

theorem chat_failure_keeps_rep_turn:
  assumes "trim m \<noteq> []"
  shows "(let (res, s') = chat (Some (JString m)) now fault (Inl err) s
          in status res = 500
             \<and> conversationHistory s' = conversationHistory s @ [\<lparr>role = User, content = m\<rparr>]
             \<and> (fault = None \<longrightarrow>
                  body res = ErrorBody (message err)
                  \<and> console s' = console s @ [(js ''Chat error:'', message err)])
             \<and> conversationText (conversationHistory s')
                 = (if conversationHistory s = [] then []
                    else conversationText (conversationHistory s) @ [0xA, 0xA])
                   @ js ''SALES REP: '' @ m)"
proof -
  let ?s1 = "s\<lparr>conversationHistory := conversationHistory s @ [\<lparr>role = User, content = m\<rparr>]\<rparr>"
  from assms have a: "appendRep (Some (JString m)) s = Inr ?s1"
    by (simp add: appendRep_string)
  obtain r s2 where b: "buildSystemPrompt now fault ?s1 = (r, s2)"
    by (cases "buildSystemPrompt now fault ?s1")
  have "conversationHistory (snd (buildSystemPrompt now fault ?s1))
        = conversationHistory s @ [\<lparr>role = User, content = m\<rparr>]"
    and "console (snd (buildSystemPrompt now fault ?s1)) = console s"
    by simp_all
  with b have h2: "conversationHistory s2 = conversationHistory s @ [\<lparr>role = User, content = m\<rparr>]"
      and c2: "console s2 = console s"
    by simp_all
  have ok: "fault = None \<Longrightarrow> \<exists>p. r = Inr p"
    using buildSystemPrompt_no_fault [of now ?s1] b by simp
  have rendered: "conversationText (conversationHistory s @ [\<lparr>role = User, content = m\<rparr>])
             = (if conversationHistory s = [] then []
                else conversationText (conversationHistory s) @ [0xA, 0xA])
               @ js ''SALES REP: '' @ m"
    by (simp add: conversationText_def join_snoc js_def)
  show ?thesis
  proof (cases r)
    case (Inl e)
    with ok have "fault \<noteq> None" by auto
    with a b Inl h2 rendered show ?thesis
      by (auto simp: chat_def caught_def)
  next
    case (Inr p)
    with a b h2 c2 rendered show ?thesis
      by (simp add: chat_def caught_def)
  qed
qed

text \<open>A third message whose model call is refused: the cache is loaded, the turn stays.\<close>

theorem chat_failure_keeps_rep_turn_witness:
  "chat (Some (JString (js ''Hello''))) 1000 None (Inl (Error (js ''529 overloaded'')))
     (initial\<lparr>conversationHistory :=
                [\<lparr>role = User, content = js ''Hi''\<rparr>, \<lparr>role = Assistant, content = js ''Yes?''\<rparr>]\<rparr>)
   = (\<lparr>status = 500, body = ErrorBody (js ''529 overloaded'')\<rparr>,
      initial\<lparr>conversationHistory :=
                [\<lparr>role = User, content = js ''Hi''\<rparr>, \<lparr>role = Assistant, content = js ''Yes?''\<rparr>,
                 \<lparr>role = User, content = js ''Hello''\<rparr>],
              knowledgeCache := Some [], knowledgeCacheTime := 1000, selects := 1,
              console := [(js ''Chat error:'', js ''529 overloaded'')]\<rparr>)"
proof -
  let ?s = "initial\<lparr>conversationHistory :=
                [\<lparr>role = User, content = js ''Hi''\<rparr>, \<lparr>role = Assistant, content = js ''Yes?''\<rparr>]\<rparr>"
  have t: "trim (js ''Hello'') \<noteq> []"
    by (simp add: trim_def js_def isSpace_def)
  obtain res s' where c: "chat (Some (JString (js ''Hello''))) 1000 None (Inl (Error (js ''529 overloaded''))) ?s = (res, s')"
    by (cases "chat (Some (JString (js ''Hello''))) 1000 None (Inl (Error (js ''529 overloaded''))) ?s")
  from chat_failure_keeps_rep_turn [OF t, of 1000 None "Error (js ''529 overloaded'')" ?s] c
  have "status res = 500" and "body res = ErrorBody (js ''529 overloaded'')"
    and "conversationHistory s' = conversationHistory ?s @ [\<lparr>role = User, content = js ''Hello''\<rparr>]"
    and "console s' = console ?s @ [(js ''Chat error:'', js ''529 overloaded'')]"
    by simp_all
  moreover have "knowledgeCache s' = Some []" "knowledgeCacheTime s' = 1000" "selects s' = 1"
    "knowledge_files s' = []" "knowledge_files_id_seq s' = 1"
    using c t
    by (auto simp: chat_def appendRep_string buildSystemPrompt_def getKnowledgeBase_def
        selectForPrompt_def caught_def initial_def Let_def)
  ultimately show ?thesis
    unfolding c by (cases res, cases s') (simp add: initial_def)
qed

section \<open>The system prompt\<close>

lemma slice_prefix: "slice 0 (Some (int n)) xs = take n xs"
  by (simp add: slice_def relativeIndex_def min_def Let_def)

lemma slice_suffix: "0 < n \<Longrightarrow> slice (- int n) None xs = drop (length xs - n) xs"
proof -
  assume "0 < n"
  have "nat (max (int (length xs) - int n) 0) = length xs - n" by simp
  with \<open>0 < n\<close> show ?thesis
    by (simp add: slice_def relativeIndex_def Let_def)
qed

lemma slice_3000: "slice 0 (Some 3000) xs = take 3000 xs"
  using slice_prefix [of 3000 xs] by simp

lemma buildSystemPrompt_files:
  "getKnowledgeBase now fault s = (Inr files, s') \<Longrightarrow>
   buildSystemPrompt now fault s = (Inr (buildPrompt BASE_SYSTEM_PROMPT files), s')"
  by (simp add: buildSystemPrompt_def)

text \<open>
  Claim C8. With no documents the prompt is the base script itself. With documents it
  is the base script, a blank line, the training materials header, and one block per
  document, \<open>--- filename ---\<close> on a line followed by the first 3000 code units of the
  content, the blocks separated by a blank line. A document of 5000 \<open>x\<close> contributes
  3000 of them.
\<close>

theorem buildPrompt_blocks:
  "buildPrompt base [] = base
   \<and> buildPrompt base (f # fs)
     = base @ [0xA, 0xA] @ TRAINING_HEADER @ [0xA]
       @ join [0xA, 0xA]
           (map (\<lambda>(fname, fcontent). js ''--- '' @ fname @ js '' ---'' @ [0xA] @ take 3000 fcontent)
              (f # fs))
   \<and> buildPrompt base [(js ''f.txt'', replicate 5000 0x78)]
     = base @ [0xA, 0xA] @ TRAINING_HEADER @ [0xA] @ js ''--- f.txt ---'' @ [0xA]
       @ replicate 3000 0x78"
proof -
  have lb: "labeledBlock = (\<lambda>(fname, fcontent). js ''--- '' @ fname @ js '' ---'' @ [0xA] @ take 3000 fcontent)"
    by (auto simp: labeledBlock_def slice_3000 fun_eq_iff)
  have "js ''--- '' @ js ''f.txt'' @ js '' ---'' = js ''--- f.txt ---''"
    by (simp add: js_def)
  then show ?thesis
    by (simp add: buildPrompt_def lb Let_def)
qed

section \<open>The knowledge base\<close>

lemma knowledgeFilePost_strings:
  "knowledgeFilePost (Some (JString f)) (Some (JString c)) ts fault s
     = (if f = [] \<or> c = [] then
          (\<lparr>status = 400, body = ErrorBody (js ''filename and content required.'')\<rparr>, s)
        else case fault of
               Some err \<Rightarrow> caught (js ''Knowledge file error:'') err s
             | None \<Rightarrow>
                 (\<lparr>status = 200, body = SuccessIdBody (knowledge_files_id_seq s)\<rparr>,
                  s\<lparr>knowledge_files :=
                       knowledge_files s
                       @ [\<lparr>file_id = knowledge_files_id_seq s, filename = trim f,
                           file_content = trim c, uploaded_at = ts\<rparr>],
                     knowledge_files_id_seq := Suc (knowledge_files_id_seq s),
                     knowledgeCache := None\<rparr>))"
  by (simp add: knowledgeFilePost_def)

text \<open>
  Claim C6 fails on the handler. What the handler does with two strings: it answers
  HTTP 400 when one of them is the empty string as sent; otherwise, the query going
  through, it stores the row with both trimmed, invalidates the cache and answers
  HTTP 200 with the new id. The check comes before the trimming.
\<close>

theorem knowledgeFilePost_checks_untrimmed:
  "(f = [] \<or> c = [] \<longrightarrow>
      knowledgeFilePost (Some (JString f)) (Some (JString c)) ts fault s
        = (\<lparr>status = 400, body = ErrorBody (js ''filename and content required.'')\<rparr>, s))
   \<and> (f \<noteq> [] \<and> c \<noteq> [] \<longrightarrow>
      knowledgeFilePost (Some (JString f)) (Some (JString c)) ts None s
        = (\<lparr>status = 200, body = SuccessIdBody (knowledge_files_id_seq s)\<rparr>,
           s\<lparr>knowledge_files :=
                knowledge_files s
                @ [\<lparr>file_id = knowledge_files_id_seq s, filename = trim f,
                    file_content = trim c, uploaded_at = ts\<rparr>],
              knowledge_files_id_seq := Suc (knowledge_files_id_seq s),
              knowledgeCache := None\<rparr>))"
  by (simp add: knowledgeFilePost_strings)

text \<open>
  A file name of three spaces passes the check, is trimmed, and a row with the empty
  file name is stored with HTTP 200.
\<close>

theorem knowledgeFilePost_blank_filename:
  "knowledgeFilePost (Some (JString (js ''   ''))) (Some (JString (js ''Always greet first.'')))
     1700000000000 None initial
   = (\<lparr>status = 200, body = SuccessIdBody 1\<rparr>,
      initial\<lparr>knowledge_files :=
                [\<lparr>file_id = 1, filename = [], file_content = js ''Always greet first.'',
                  uploaded_at = 1700000000000\<rparr>],
              knowledge_files_id_seq := 2,
              knowledgeCache := None\<rparr>)"
proof -
  have "trim (js ''   '') = []"
    by (simp add: trim_def js_def isSpace_def)
  moreover have "trim (js ''Always greet first.'') = js ''Always greet first.''"
    by (simp add: trim_def js_def isSpace_def)
  moreover have "js ''   '' \<noteq> []" "js ''Always greet first.'' \<noteq> []"
    by (simp_all add: js_def)
  ultimately show ?thesis
    using knowledgeFilePost_checks_untrimmed
            [of "js ''   ''" "js ''Always greet first.''" 1700000000000 None initial]
    by (simp add: initial_def)
qed






lemma getKnowledgeBase_table [simp]:
  "knowledge_files (snd (getKnowledgeBase now fault s)) = knowledge_files s"
  by (simp add: getKnowledgeBase_def Let_def split: option.splits)

lemma getKnowledgeBase_cache:
  "knowledgeCache (snd (getKnowledgeBase now fault s)) = knowledgeCache s
   \<or> knowledgeCache (snd (getKnowledgeBase now fault s))
     = Some (selectForPrompt (knowledge_files s))"
  by (simp add: getKnowledgeBase_def Let_def split: option.splits)

lemma buildSystemPrompt_state:
  "snd (buildSystemPrompt now fault s) = snd (getKnowledgeBase now fault s)"
  by (simp add: buildSystemPrompt_def split: prod.splits sum.splits)

lemma appendRep_store:
  "appendRep msg s = Inr s1 \<Longrightarrow>
   knowledge_files s1 = knowledge_files s \<and> knowledgeCache s1 = knowledgeCache s"
  by (auto simp: appendRep_def split: if_splits option.splits json.splits)

lemma appendRep_answered:
  "appendRep msg s = Inl (res, s1) \<Longrightarrow>
   knowledge_files s1 = knowledge_files s \<and> knowledgeCache s1 = knowledgeCache s"
  by (auto simp: appendRep_def caught_def split: if_splits option.splits json.splits)

lemma chat_store:
  "knowledge_files (snd (chat msg now fault reply s)) = knowledge_files s
   \<and> (knowledgeCache (snd (chat msg now fault reply s)) = knowledgeCache s
      \<or> knowledgeCache (snd (chat msg now fault reply s))
        = Some (selectForPrompt (knowledge_files s)))"
proof (cases "appendRep msg s")
  case (Inl a)
  obtain res s1 where "a = (res, s1)" by (cases a)
  with Inl appendRep_answered [of msg s res s1] show ?thesis
    by (simp add: chat_def)
next
  case (Inr s1)
  note st = appendRep_store [OF Inr]
  obtain r s2 where b: "buildSystemPrompt now fault s1 = (r, s2)"
    by (cases "buildSystemPrompt now fault s1")
  then have s2: "s2 = snd (getKnowledgeBase now fault s1)"
    using buildSystemPrompt_state [of now fault s1] by simp
  have "knowledge_files s2 = knowledge_files s"
    and "knowledgeCache s2 = knowledgeCache s
         \<or> knowledgeCache s2 = Some (selectForPrompt (knowledge_files s))"
    using st getKnowledgeBase_cache [of now fault s1] by (simp_all add: s2)
  with Inr b show ?thesis
    by (auto simp: chat_def caught_def split: sum.splits)
qed

text \<open>
  Requests handled one after the other keep the cache coherent: it is \<open>null\<close> or holds
  the rows of the table as it is now.
\<close>

lemma handle_cache:
  assumes "knowledgeCache s = None
           \<or> knowledgeCache s = Some (selectForPrompt (knowledge_files s))"
  shows "knowledgeCache (snd (handle parse r s)) = None
         \<or> knowledgeCache (snd (handle parse r s))
           = Some (selectForPrompt (knowledge_files (snd (handle parse r s))))"
proof (cases r)
  case (PostChat msg now fault reply)
  with assms chat_store [of msg now fault reply s] show ?thesis by auto
next
  case (PostAnalyze reply)
  with assms show ?thesis
    by (auto simp: analyze_def caught_def split: sum.splits)
next
  case PostReset
  with assms show ?thesis by (simp add: reset_def)
next
  case (PostKnowledgeFile fname fcontent ts fault)
  with assms show ?thesis
    by (auto simp: knowledgeFilePost_def caught_def
        split: if_splits option.splits json.splits)
next
  case (GetKnowledgeFiles fault)
  with assms show ?thesis
    by (auto simp: knowledgeFilesGet_def caught_def split: option.splits)
next
  case (DeleteKnowledgeFile i fault)
  with assms show ?thesis
    by (auto simp: knowledgeFileDelete_def caught_def split: option.splits)
qed

lemma serve_cache:
  "knowledgeCache s = None \<or> knowledgeCache s = Some (selectForPrompt (knowledge_files s)) \<Longrightarrow>
   knowledgeCache (serve parse rs s) = None
   \<or> knowledgeCache (serve parse rs s)
     = Some (selectForPrompt (knowledge_files (serve parse rs s)))"
proof (induction rs arbitrary: s)
  case Nil
  then show ?case by simp
next
  case (Cons r rs)
  from Cons.prems have "knowledgeCache (snd (handle parse r s)) = None
         \<or> knowledgeCache (snd (handle parse r s))
           = Some (selectForPrompt (knowledge_files (snd (handle parse r s))))"
    by (rule handle_cache)
  then show ?case
    using Cons.IH [of "snd (handle parse r s)"] by simp
qed

lemma sorted_descending:
  fixes f :: "'a \<Rightarrow> int"
  shows "sorted (rev (map f (sort_key (\<lambda>r. - f r) xs)))"
proof -
  have "sorted (map (\<lambda>r. - f r) (sort_key (\<lambda>r. - f r) xs))"
    by (rule sorted_sort_key)
  then have "sorted_wrt (\<lambda>x y. f y \<le> f x) (sort_key (\<lambda>r. - f r) xs)"
    by (simp add: sorted_map)
  then show ?thesis
    by (simp add: sorted_wrt_rev sorted_wrt_map)
qed

text \<open>
  The preview: \<open>sqlLeft n\<close> is a prefix of the text with at most \<open>n\<close> characters, so at
  most \<open>2 * n\<close> code units. On a text without surrogates it is the first \<open>n\<close> code
  units; of a text of surrogate pairs it keeps \<open>n\<close> pairs, twice as many code units.
\<close>

lemma sqlLeft_Cons: "sqlLeft (Suc n) (c # s) = c # tl (sqlLeft (Suc n) (c # s))"
  by (cases s) simp_all

lemma sqlLeft_charCount: "charCount (sqlLeft n s) \<le> n"
proof (induction n s rule: sqlLeft.induct)
  case (4 n c d r)
  show ?case
  proof (cases "isHighSurrogate c \<and> isLowSurrogate d")
    case True
    with 4 show ?thesis by simp
  next
    case False
    show ?thesis
    proof (cases n)
      case 0
      with False show ?thesis by simp
    next
      case (Suc m)
      from sqlLeft_Cons [of m d r] obtain t where t: "sqlLeft (Suc m) (d # r) = d # t" by blast
      with 4(2) False Suc show ?thesis by auto
    qed
  qed
qed simp_all

lemma sqlLeft_prefix: "prefix (sqlLeft n s) s"
  by (induction n s rule: sqlLeft.induct) simp_all

lemma sqlLeft_length: "length (sqlLeft n s) \<le> 2 * n"
  by (induction n s rule: sqlLeft.induct) auto

lemma sqlLeft_take:
  "\<forall>c\<in>set s. \<not> isHighSurrogate c \<Longrightarrow> sqlLeft n s = take n s"
  by (induction n s rule: sqlLeft.induct) simp_all

lemma sqlLeft_pairs:
  "isHighSurrogate h \<Longrightarrow> isLowSurrogate l \<Longrightarrow>
   sqlLeft n (concat (replicate m [h, l])) = concat (replicate (min n m) [h, l])"
proof (induction n arbitrary: m)
  case 0
  then show ?case by simp
next
  case (Suc n)
  then show ?case by (cases m) simp_all
qed

lemma trim_no_space:
  assumes "\<forall>c\<in>set s. \<not> isSpace c"
  shows "trim s = s"
proof -
  have "dropWhile isSpace xs = xs" if "\<forall>c\<in>set xs. \<not> isSpace c" for xs
    using that by (cases xs) simp_all
  from this [of s] this [of "rev s"] assms show ?thesis
    by (simp add: trim_def)
qed

text \<open>
  Claim C9. In every state the server gets to from its start, a read for the prompt
  returns \<open>filename\<close> and \<open>content\<close> of all rows of the table in ascending order of
  \<open>uploaded_at\<close>, and the list returns \<open>id\<close>, \<open>filename\<close>, the preview and \<open>uploaded_at\<close>
  of all rows in descending order of \<open>uploaded_at\<close>. The preview of a content \<open>c\<close> is
  its first 120 characters: a prefix of \<open>c\<close> of at most 120 characters, which are at
  most 240 code units.
\<close>

theorem knowledge_read_orders:
  assumes "s = serve parse requests initial"
  shows "(\<exists>rows. fst (getKnowledgeBase now None s)
                  = Inr (map (\<lambda>r. (filename r, file_content r)) rows)
               \<and> mset rows = mset (knowledge_files s)
               \<and> sorted (map uploaded_at rows))
       \<and> (\<exists>rows. fst (knowledgeFilesGet None s)
                  = \<lparr>status = 200,
                     body = FilesBody
                       (map (\<lambda>r. (file_id r, filename r, sqlLeft 120 (file_content r),
                                   uploaded_at r))
                          rows)\<rparr>
               \<and> mset rows = mset (knowledge_files s)
               \<and> sorted (rev (map uploaded_at rows)))
       \<and> prefix (sqlLeft 120 c) c
       \<and> charCount (sqlLeft 120 c) \<le> 120
       \<and> length (sqlLeft 120 c) \<le> 240"
proof (intro conjI)
  have "knowledgeCache initial = None
        \<or> knowledgeCache initial = Some (selectForPrompt (knowledge_files initial))"
    by (simp add: initial_def)
  then have "knowledgeCache s = None
        \<or> knowledgeCache s = Some (selectForPrompt (knowledge_files s))"
    unfolding assms by (rule serve_cache)
  then have "fst (getKnowledgeBase now None s) = Inr (selectForPrompt (knowledge_files s))"
    by (auto simp: getKnowledgeBase_def Let_def)
  then show "\<exists>rows. fst (getKnowledgeBase now None s)
                  = Inr (map (\<lambda>r. (filename r, file_content r)) rows)
               \<and> mset rows = mset (knowledge_files s)
               \<and> sorted (map uploaded_at rows)"
    by (intro exI [of _ "sort_key uploaded_at (knowledge_files s)"])
       (simp add: selectForPrompt_def)
next
  show "\<exists>rows. fst (knowledgeFilesGet None s)
                  = \<lparr>status = 200,
                     body = FilesBody
                       (map (\<lambda>r. (file_id r, filename r, sqlLeft 120 (file_content r),
                                   uploaded_at r))
                          rows)\<rparr>
               \<and> mset rows = mset (knowledge_files s)
               \<and> sorted (rev (map uploaded_at rows))"
    by (intro exI [of _ "sort_key (\<lambda>r. - uploaded_at r) (knowledge_files s)"])
       (simp add: knowledgeFilesGet_def selectForList_def sorted_descending)
next
  show "prefix (sqlLeft 120 c) c" by (rule sqlLeft_prefix)
next
  show "charCount (sqlLeft 120 c) \<le> 120" by (rule sqlLeft_charCount)
next
  show "length (sqlLeft 120 c) \<le> 240" using sqlLeft_length [of 120 c] by simp
qed

text \<open>
  Two uploads, at 10 and at 20, and a chat turn that loads the cache: the prompt reads
  the files oldest first, the list newest first. The second file is 121 times the
  character U+1F600, a surrogate pair each: its preview is 120 of them, 240 code units.
\<close>

theorem knowledge_read_orders_witness:
  "fst (getKnowledgeBase 70000 None
     (serve JSON_parse
        [PostKnowledgeFile (Some (JString (js ''a.txt''))) (Some (JString (js ''A''))) 10 None,
         PostKnowledgeFile (Some (JString (js ''b.txt'')))
           (Some (JString (concat (replicate 121 [0xD83D, 0xDE00])))) 20 None,
         PostChat (Some (JString (js ''Hi''))) 30 None (Inr (js ''Yes?''))]
        initial))
   = Inr [(js ''a.txt'', js ''A''), (js ''b.txt'', concat (replicate 121 [0xD83D, 0xDE00]))]
   \<and> fst (knowledgeFilesGet None
     (serve JSON_parse
        [PostKnowledgeFile (Some (JString (js ''a.txt''))) (Some (JString (js ''A''))) 10 None,
         PostKnowledgeFile (Some (JString (js ''b.txt'')))
           (Some (JString (concat (replicate 121 [0xD83D, 0xDE00])))) 20 None,
         PostChat (Some (JString (js ''Hi''))) 30 None (Inr (js ''Yes?''))]
        initial))
   = \<lparr>status = 200,
      body = FilesBody [(2, js ''b.txt'', concat (replicate 120 [0xD83D, 0xDE00]), 20),
                        (1, js ''a.txt'', js ''A'', 10)]\<rparr>
   \<and> (\<exists>rows. fst (getKnowledgeBase 70000 None
     (serve JSON_parse
        [PostKnowledgeFile (Some (JString (js ''a.txt''))) (Some (JString (js ''A''))) 10 None,
         PostKnowledgeFile (Some (JString (js ''b.txt'')))
           (Some (JString (concat (replicate 121 [0xD83D, 0xDE00])))) 20 None,
         PostChat (Some (JString (js ''Hi''))) 30 None (Inr (js ''Yes?''))]
        initial))
                  = Inr (map (\<lambda>r. (filename r, file_content r)) rows)
               \<and> mset rows
                 = mset (knowledge_files
     (serve JSON_parse
        [PostKnowledgeFile (Some (JString (js ''a.txt''))) (Some (JString (js ''A''))) 10 None,
         PostKnowledgeFile (Some (JString (js ''b.txt'')))
           (Some (JString (concat (replicate 121 [0xD83D, 0xDE00])))) 20 None,
         PostChat (Some (JString (js ''Hi''))) 30 None (Inr (js ''Yes?''))]
        initial))
               \<and> sorted (map uploaded_at rows))
   \<and> length (concat (replicate 120 [0xD83D, 0xDE00 :: nat])) = 240"
proof -
  define grins :: jsstring where "grins = concat (replicate 121 [0xD83D, 0xDE00])"
  define shown :: jsstring where "shown = concat (replicate 120 [0xD83D, 0xDE00])"
  let ?rs = "[PostKnowledgeFile (Some (JString (js ''a.txt''))) (Some (JString (js ''A''))) 10 None,
         PostKnowledgeFile (Some (JString (js ''b.txt''))) (Some (JString grins)) 20 None,
         PostChat (Some (JString (js ''Hi''))) 30 None (Inr (js ''Yes?''))]"
  let ?s = "serve JSON_parse ?rs initial"
  let ?rows = "[(js ''a.txt'', js ''A''), (js ''b.txt'', grins)]"
  have t: "trim (js ''a.txt'') = js ''a.txt''" "trim (js ''A'') = js ''A''"
          "trim (js ''b.txt'') = js ''b.txt''" "trim (js ''Hi'') = js ''Hi''"
    by (simp_all add: trim_def js_def isSpace_def)
  have tg: "trim grins = grins"
    unfolding grins_def by (rule trim_no_space) (simp add: isSpace_def)
  have ne: "js ''a.txt'' \<noteq> []" "js ''A'' \<noteq> []" "js ''b.txt'' \<noteq> []" "js ''Hi'' \<noteq> []"
    by (simp_all add: js_def)
  have neg: "grins \<noteq> []"
  proof
    assume "grins = []"
    then have "length (concat (replicate 121 [0xD83D, 0xDE00 :: nat])) = 0"
      by (simp only: grins_def list.size)
    then show False by (simp add: length_concat)
  qed
  have pa: "sqlLeft 120 (js ''A'') = js ''A''"
    by (subst sqlLeft_take) (simp_all add: js_def isHighSurrogate_def)
  have pg: "sqlLeft 120 grins = shown"
    unfolding grins_def shown_def
    by (subst sqlLeft_pairs) (simp_all add: isHighSurrogate_def isLowSurrogate_def)
  have s: "?s = initial\<lparr>conversationHistory :=
                    [\<lparr>role = User, content = js ''Hi''\<rparr>,
                     \<lparr>role = Assistant, content = js ''Yes?''\<rparr>],
                  knowledgeCache := Some ?rows, knowledgeCacheTime := 30,
                  knowledge_files :=
                    [\<lparr>file_id = 1, filename = js ''a.txt'', file_content = js ''A'', uploaded_at = 10\<rparr>,
                     \<lparr>file_id = 2, filename = js ''b.txt'', file_content = grins, uploaded_at = 20\<rparr>],
                  knowledge_files_id_seq := 3, selects := 1\<rparr>"
    using ne neg
    by (simp add: knowledgeFilePost_strings chat_def appendRep_string buildSystemPrompt_def
        getKnowledgeBase_def selectForPrompt_def t tg initial_def Let_def)
  have g: "fst (getKnowledgeBase 70000 None ?s) = Inr ?rows"
    unfolding s by (simp add: getKnowledgeBase_def selectForPrompt_def initial_def Let_def)
  have l: "fst (knowledgeFilesGet None ?s)
     = \<lparr>status = 200,
        body = FilesBody [(2, js ''b.txt'', shown, 20), (1, js ''a.txt'', js ''A'', 10)]\<rparr>"
    unfolding s by (simp add: knowledgeFilesGet_def selectForList_def initial_def pa pg)
  note e = conjunct1 [OF knowledge_read_orders [of ?s JSON_parse ?rs 70000, OF refl]]
  have n: "length shown = 240"
    unfolding shown_def by (simp add: length_concat sum_list_replicate)
  from g l e n show ?thesis
    unfolding grins_def shown_def by (intro conjI)
qed

section \<open>The manager's figures\<close>

text \<open>
  Rounding to a double changes nothing on an integer of at most 53 bits, so sums of
  integer scores are exact. A quotient is rounded.
\<close>

lemma roundHalfEven_of_int: "roundHalfEven (of_int k) = k"
  by (simp add: roundHalfEven_def)

lemma bitlen_one: "bitlen 1 = 1"
  by (simp add: bitlen_def floorlog_def)

lemma toDouble_minus: "toDouble (- x) = jsNegate (toDouble x)"
  by (cases "x = 0"; cases "0 < x") (auto simp: toDouble_def Let_def)

lemma floorLog2_of_int:
  assumes "0 < n"
  shows "floorLog2 (of_int n) = bitlen n - 1"
proof -
  have b: "1 \<le> bitlen n" using assms by (simp add: bitlen_ge_iff_power)
  have "(2::int) ^ nat (bitlen n - 1) \<le> n" using bitlen_bounds [OF assms] by simp
  then have "(of_int ((2::int) ^ nat (bitlen n - 1)) :: rat) \<le> of_int n"
    by (simp only: of_int_le_iff)
  then have "(2::rat) ^ nat (bitlen n - 1) \<le> of_int n" by simp
  with b show ?thesis
    by (simp add: floorLog2_def quotient_of_rat_of_int bitlen_one pow2_def)
qed

lemma toDouble_of_pos_int:
  assumes "0 < n" and "n \<le> 2 ^ 53"
  shows "toDouble (of_int n) = Num (of_int n)"
proof -
  define e where "e = bitlen n - 1"
  have "1 \<le> bitlen n" using assms(1) by (simp add: bitlen_ge_iff_power)
  moreover have "bitlen n \<le> 54" using assms(2) by (simp add: bitlen_le_iff_power)
  ultimately have e: "0 \<le> e" "e \<le> 53" by (simp_all add: e_def)
  have fl: "floorLog2 (of_int n) = e"
    using assms(1) by (simp add: floorLog2_of_int e_def)
  have low: "(2::int) ^ nat e \<le> n"
    using bitlen_bounds [OF assms(1)] by (simp add: e_def)
  have "\<exists>m. (of_int n :: rat) / pow2 (e - 52) = of_int m"
  proof (cases "e \<le> 52")
    case True
    then have "(of_int n :: rat) / pow2 (e - 52) = of_int (n * 2 ^ nat (52 - e))"
      by (auto simp: pow2_def)
    then show ?thesis by blast
  next
    case False
    with e have e53: "e = 53" by simp
    with low assms(2) have "n = 2 ^ 53" by simp
    with e53 have "(of_int n :: rat) / pow2 (e - 52) = of_int (2 ^ 52)"
      by (simp add: pow2_def)
    then show ?thesis by blast
  qed
  then obtain m where m: "(of_int n :: rat) / pow2 (e - 52) = of_int m" by blast
  have nz: "pow2 (e - 52) \<noteq> 0" by (simp add: pow2_def)
  have y: "of_int (roundHalfEven (of_int n / pow2 (e - 52))) * pow2 (e - 52) = (of_int n :: rat)"
  proof -
    have "of_int (roundHalfEven (of_int n / pow2 (e - 52))) = (of_int n :: rat) / pow2 (e - 52)"
      by (simp only: m roundHalfEven_of_int)
    with nz show ?thesis by simp
  qed
  have "(of_int n :: rat) \<le> of_int (2 ^ 53)" using assms(2) by (simp only: of_int_le_iff)
  moreover have "(2::rat) ^ 53 < 2 ^ 1024" by simp
  ultimately have big: "\<not> pow2 1024 \<le> (of_int n :: rat)" by (simp add: pow2_def)
  from assms(1) e show ?thesis
    by (simp add: toDouble_def Let_def fl y big max_def)
qed

lemma toDouble_of_int:
  assumes "\<bar>i\<bar> \<le> 2 ^ 53"
  shows "toDouble (of_int i) = Num (of_int i)"
proof -
  consider "i = 0" | "0 < i" | "i < 0" by linarith
  then show ?thesis
  proof cases
    case 1
    then show ?thesis by (simp add: toDouble_def)
  next
    case 2
    with assms show ?thesis by (simp add: toDouble_of_pos_int)
  next
    case 3
    with assms have "toDouble (of_int (- i)) = Num (of_int (- i))"
      by (intro toDouble_of_pos_int) simp_all
    then have "jsNegate (toDouble (of_int i)) = Num (- of_int i)"
      by (simp add: toDouble_minus)
    then show ?thesis by (cases "toDouble (of_int i)") simp_all
  qed
qed

lemma toDouble_numeral:
  "(numeral k :: int) \<le> 9007199254740992 \<Longrightarrow> toDouble (numeral k) = Num (numeral k)"
  using toDouble_of_int [of "numeral k"] by simp

lemma reduceSum_of_int:
  assumes "(\<Sum>i\<leftarrow>is. \<bar>i\<bar>) \<le> 2 ^ 53"
  shows "reduceSum (map (\<lambda>i. Num (of_int i)) is) = Num (of_int (sum_list is))"
proof -
  have "foldl (\<lambda>a b. jsAdd a b) (Num (of_int a)) (map (\<lambda>i. Num (of_int i)) is)
        = Num (of_int (a + sum_list is))"
    if "\<bar>a\<bar> + (\<Sum>i\<leftarrow>is. \<bar>i\<bar>) \<le> 2 ^ 53" for a
    using that
  proof (induction "is" arbitrary: a)
    case Nil
    then show ?case by simp
  next
    case (Cons i "is")
    have nonneg: "0 \<le> (\<Sum>i\<leftarrow>is. \<bar>i\<bar>)" by (rule sum_list_nonneg) auto
    with Cons.prems have "\<bar>a + i\<bar> \<le> 2 ^ 53" by simp
    then have "jsAdd (Num (of_int a)) (Num (of_int i)) = Num (of_int (a + i))"
      using toDouble_of_int [of "a + i"] by simp
    moreover from Cons.prems have "\<bar>a + i\<bar> + (\<Sum>i\<leftarrow>is. \<bar>i\<bar>) \<le> 2 ^ 53" by simp
    ultimately show ?case
      using Cons.IH [of "a + i"] by (simp add: add.assoc)
  qed
  from this [of 0] assms show ?thesis by (simp add: reduceSum_def)
qed

lemma improvement_halves:
  "improvement analyses
     = (let scores = map overallOrZero analyses; n = length scores; half = n div 2
        in if n < 4 then None
           else Some (Math_round
                  (jsSubtract
                     (jsDivide (reduceSum (take half scores)) (Num (of_nat half)))
                     (jsDivide (reduceSum (drop (n - half) scores)) (Num (of_nat half))))))"
proof (cases "length analyses < 4")
  case True
  then show ?thesis by (simp add: improvement_def Let_def)
next
  case False
  then have "0 < length (map overallOrZero analyses) div 2" by simp
  from slice_suffix [OF this, of "map overallOrZero analyses"] False show ?thesis
    by (simp add: improvement_def Let_def slice_prefix)
qed

text \<open>
  Claim C4. With fewer than 4 sessions the trend is \<open>null\<close>. With \<open>n \<ge> 4\<close> scores,
  newest first, and \<open>half = n div 2\<close>, it is \<open>Math.round\<close> of the difference of two
  means: of the first \<open>half\<close> scores and of the last \<open>half\<close> scores, each the sum of
  the scores from the left divided by \<open>half\<close>, every operation in double arithmetic.
  The scores 90, 85, 60, 55 give 30.
\<close>

theorem improvement_trend:
  "improvement analyses
     = (let scores = map overallOrZero analyses; n = length scores; half = n div 2
        in if n < 4 then None
           else Some (Math_round
                  (jsSubtract
                     (jsDivide (reduceSum (take half scores)) (Num (of_nat half)))
                     (jsDivide (reduceSum (drop (n - half) scores)) (Num (of_nat half))))))
   \<and> improvement
        (map (\<lambda>v. \<lparr>overall = Some v, breakdown = None, summary = None, keyStrength = None,
                    keyImprovement = None\<rparr>) [90, 85, 60, 55])
     = Some (Num 30)"
proof -
  have newer: "toDouble (175 / 2) = Num (175 / 2)" by code_simp
  have older: "toDouble (115 / 2) = Num (115 / 2)" by code_simp
  have r: "\<lfloor>61 / 2 :: rat\<rfloor> = 30" by code_simp
  have "improvement
        (map (\<lambda>v. \<lparr>overall = Some v, breakdown = None, summary = None, keyStrength = None,
                    keyImprovement = None\<rparr>) [90, 85, 60, 55])
     = Some (Num 30)"
    by (simp add: improvement_halves overallOrZero_def reduceSum_def jsSubtract_def
        toDouble_numeral newer older r)
  with improvement_halves [of analyses] show ?thesis by simp
qed

text \<open>
  The means are rounded to doubles before they are subtracted. Of the twelve scores
  below the exact means differ by 7.5, which rounds to 8; the doubles differ by
  7.499999999999993, and the trend is 7.
\<close>

lemma improvement_double_rounding:
  "improvement
        (map (\<lambda>v. \<lparr>overall = Some v, breakdown = None, summary = None, keyStrength = None,
                    keyImprovement = None\<rparr>)
           [60, 64, 98, 85, 53, 50, 42, 68, 53, 65, 90, 47])
     = Some (Num 7)
   \<and> \<lfloor>((60 + 64 + 98 + 85 + 53 + 50) / 6 - (42 + 68 + 53 + 65 + 90 + 47) / 6 + 1 / 2 :: rat)\<rfloor> = 8"
proof -
  have newer: "jsDivide (Num 410) (Num 6) = Num (4808530852140373 / 70368744177664)"
    by code_simp
  have older: "jsDivide (Num 365) (Num 6) = Num (8561530541615787 / 140737488355328)"
    by code_simp
  have diff: "jsSubtract (Num (4808530852140373 / 70368744177664))
                (Num (8561530541615787 / 140737488355328))
              = Num (1055531162664959 / 140737488355328)"
    by code_simp
  have r: "Math_round (Num (1055531162664959 / 140737488355328)) = Num 7" by code_simp
  have s1: "reduceSum [Num 60, Num 64, Num 98, Num 85, Num 53, Num 50] = Num 410"
    by (simp add: reduceSum_def toDouble_numeral)
  have s2: "reduceSum [Num 42, Num 68, Num 53, Num 65, Num 90, Num 47] = Num 365"
    by (simp add: reduceSum_def toDouble_numeral)
  have e: "\<lfloor>8 :: rat\<rfloor> = 8" by simp
  have "improvement
        (map (\<lambda>v. \<lparr>overall = Some v, breakdown = None, summary = None, keyStrength = None,
                    keyImprovement = None\<rparr>)
           [60, 64, 98, 85, 53, 50, 42, 68, 53, 65, 90, 47])
     = Some (Math_round (jsSubtract
          (jsDivide (reduceSum [Num 60, Num 64, Num 98, Num 85, Num 53, Num 50]) (Num 6))
          (jsDivide (reduceSum [Num 42, Num 68, Num 53, Num 65, Num 90, Num 47]) (Num 6))))"
    by (simp add: improvement_halves overallOrZero_def toDouble_numeral)
  then show ?thesis
    by (simp only: s1 s2 newer older diff r) (simp add: e)
qed

lemma present_scores:
  "map the (filter (\<lambda>v. v \<noteq> None) (map f xs)) = List.map_filter f xs"
  by (induction xs) (auto simp: List.map_filter_simps)

lemma catAvg_formula:
  "catAvg analyses k
     = (let present = List.map_filter (categoryScore k) analyses
        in if present = [] then None
           else Some (Math_round
                  (jsDivide (reduceSum present) (Num (of_nat (length present))))))"
proof -
  have "catAvg analyses k
        = (let vals = List.map_filter (categoryScore k) analyses
           in if length vals \<noteq> 0
              then Some (Math_round (jsDivide (reduceSum vals) (Num (of_nat (length vals)))))
              else None)"
    by (simp only: catAvg_def present_scores)
  then show ?thesis
    by (simp add: Let_def)
qed

text \<open>
  Claim C7, as amended. \<open>catAvgs\<close> has the six categories in their fixed order. The
  value of a category is \<open>null\<close> when no session has a score for it, and otherwise
  \<open>Math.round\<close> (the nearest integer, a tie going up) of the mean of the scores that are
  there: their sum from the left divided by their number, in double arithmetic. A
  session without \<open>breakdown\<close>, without the category or without its score has no score
  there and changes nothing.
\<close>

theorem catAvgs_rounded_means:
  "map fst (catAvgs analyses)
     = [js ''opening'', js ''objectionHandling'', js ''rapport'', js ''tonality'',
        js ''timing'', js ''closing'']
   \<and> map snd (catAvgs analyses)
     = map (\<lambda>k. let present = List.map_filter (categoryScore k) analyses
                 in if present = [] then None
                    else Some (Math_round
                           (jsDivide (reduceSum present) (Num (of_nat (length present))))))
         catKeys
   \<and> (categoryScore k a = None \<longrightarrow> catAvg (a # analyses) k = catAvg analyses k)
   \<and> (breakdown a = None \<longrightarrow> categoryScore k a = None)
   \<and> (\<forall>b. breakdown a = Some b \<and> b k = None \<longrightarrow> categoryScore k a = None)
   \<and> (\<forall>b e. breakdown a = Some b \<and> b k = Some e \<and> score e = None \<longrightarrow> categoryScore k a = None)"
proof (intro conjI)
  show "map fst (catAvgs analyses)
     = [js ''opening'', js ''objectionHandling'', js ''rapport'', js ''tonality'',
        js ''timing'', js ''closing'']"
    by (simp add: catAvgs_def catKeys_def)
  show "map snd (catAvgs analyses)
     = map (\<lambda>k. let present = List.map_filter (categoryScore k) analyses
                 in if present = [] then None
                    else Some (Math_round
                           (jsDivide (reduceSum present) (Num (of_nat (length present))))))
         catKeys"
    by (simp add: catAvgs_def catAvg_formula comp_def)
  show "categoryScore k a = None \<longrightarrow> catAvg (a # analyses) k = catAvg analyses k"
    by (simp add: catAvg_def)
qed (simp_all add: categoryScore_def)

text \<open>A session without a breakdown next to one that scores only the opening.\<close>

theorem catAvgs_rounded_means_witness:
  "catAvg
     [\<lparr>overall = Some 70, breakdown = None, summary = None, keyStrength = None,
        keyImprovement = None\<rparr>,
      \<lparr>overall = Some 80,
        breakdown = Some [js ''opening'' \<mapsto> \<lparr>score = Some 80, feedback = None\<rparr>],
        summary = None, keyStrength = None, keyImprovement = None\<rparr>]
     (js ''opening'')
   = Some (Num 80)
   \<and> catAvg
     [\<lparr>overall = Some 70, breakdown = None, summary = None, keyStrength = None,
        keyImprovement = None\<rparr>,
      \<lparr>overall = Some 80,
        breakdown = Some [js ''opening'' \<mapsto> \<lparr>score = Some 80, feedback = None\<rparr>],
        summary = None, keyStrength = None, keyImprovement = None\<rparr>]
     (js ''closing'')
   = None"
proof -
  let ?a = "\<lparr>overall = Some 70, breakdown = None, summary = None, keyStrength = None,
        keyImprovement = None\<rparr>"
  let ?b = "\<lparr>overall = Some 80,
        breakdown = Some [js ''opening'' \<mapsto> \<lparr>score = Some 80, feedback = None\<rparr>],
        summary = None, keyStrength = None, keyImprovement = None\<rparr>"
  have n: "breakdown ?a = None" by simp
  have "\<lfloor>161 / 2 :: rat\<rfloor> = 80" by code_simp
  then have o: "catAvg [?b] (js ''opening'') = Some (Num 80)"
    by (simp add: catAvg_def categoryScore_def reduceSum_def toDouble_numeral)
  have c: "catAvg [?b] (js ''closing'') = None"
    by (simp add: catAvg_def categoryScore_def js_def)
  from catAvgs_rounded_means [of "[?b]" "js ''opening''" ?a]
       catAvgs_rounded_means [of "[?b]" "js ''closing''" ?a] n o c
  show ?thesis by simp
qed

text \<open>
  Claim C7 as the specification states it fails: opening scores 80 and 81 have the mean
  80.5, in doubles as in exact arithmetic; the handler reports 81.
\<close>

theorem catAvg_mean_counterexample:
  "catAvg
     [\<lparr>overall = Some 80,
        breakdown = Some [js ''opening'' \<mapsto> \<lparr>score = Some 80, feedback = None\<rparr>],
        summary = None, keyStrength = None, keyImprovement = None\<rparr>,
      \<lparr>overall = Some 81,
        breakdown = Some [js ''opening'' \<mapsto> \<lparr>score = Some 81, feedback = None\<rparr>],
        summary = None, keyStrength = None, keyImprovement = None\<rparr>]
     (js ''opening'')
   = Some (Num 81)
   \<and> jsDivide (reduceSum [toDouble 80, toDouble 81]) (Num 2) = Num (161 / 2)
   \<and> (81 :: rat) \<noteq> (80 + 81) / 2"
proof -
  have m: "toDouble (161 / 2) = Num (161 / 2)" by code_simp
  have r: "\<lfloor>(81 :: rat)\<rfloor> = 81" by simp
  show ?thesis
    by (simp add: catAvg_def categoryScore_def reduceSum_def toDouble_numeral m r)
qed

text \<open>
  The sum and the quotient are rounded to doubles. The scores 70.1, 70.3 and 71.1 have
  the exact mean 70.5, which rounds to 71; in doubles the mean is 70.49999999999999,
  and the category average is 70.
\<close>

lemma catAvg_double_rounding:
  "catAvg
     [\<lparr>overall = None,
        breakdown = Some [js ''opening'' \<mapsto> \<lparr>score = Some (701 / 10), feedback = None\<rparr>],
        summary = None, keyStrength = None, keyImprovement = None\<rparr>,
      \<lparr>overall = None,
        breakdown = Some [js ''opening'' \<mapsto> \<lparr>score = Some (703 / 10), feedback = None\<rparr>],
        summary = None, keyStrength = None, keyImprovement = None\<rparr>,
      \<lparr>overall = None,
        breakdown = Some [js ''opening'' \<mapsto> \<lparr>score = Some (711 / 10), feedback = None\<rparr>],
        summary = None, keyStrength = None, keyImprovement = None\<rparr>]
     (js ''opening'')
   = Some (Num 70)
   \<and> \<lfloor>(701 / 10 + 703 / 10 + 711 / 10) / 3 + 1 / 2 :: rat\<rfloor> = 71"
proof -
  have d: "toDouble (701 / 10) = Num (2466424483427123 / 35184372088832)"
          "toDouble (703 / 10) = Num (4946922715689779 / 70368744177664)"
          "toDouble (711 / 10) = Num (2501608855515955 / 35184372088832)"
    by code_simp+
  have s: "jsAdd (Num 0) (Num (2466424483427123 / 35184372088832))
           = Num (2466424483427123 / 35184372088832)"
          "jsAdd (Num (2466424483427123 / 35184372088832))
             (Num (4946922715689779 / 70368744177664))
           = Num (1234971460318003 / 8796093022208)"
          "jsAdd (Num (1234971460318003 / 8796093022208))
             (Num (2501608855515955 / 35184372088832))
           = Num (7441494696787967 / 35184372088832)"
    by code_simp+
  have m: "jsDivide (Num (7441494696787967 / 35184372088832)) (Num 3)
           = Num (4960996464525311 / 70368744177664)"
    by code_simp
  have r: "Math_round (Num (4960996464525311 / 70368744177664)) = Num 70" by code_simp
  have e: "\<lfloor>(701 / 10 + 703 / 10 + 711 / 10) / 3 + 1 / 2 :: rat\<rfloor> = 71" by code_simp
  have "catAvg
     [\<lparr>overall = None,
        breakdown = Some [js ''opening'' \<mapsto> \<lparr>score = Some (701 / 10), feedback = None\<rparr>],
        summary = None, keyStrength = None, keyImprovement = None\<rparr>,
      \<lparr>overall = None,
        breakdown = Some [js ''opening'' \<mapsto> \<lparr>score = Some (703 / 10), feedback = None\<rparr>],
        summary = None, keyStrength = None, keyImprovement = None\<rparr>,
      \<lparr>overall = None,
        breakdown = Some [js ''opening'' \<mapsto> \<lparr>score = Some (711 / 10), feedback = None\<rparr>],
        summary = None, keyStrength = None, keyImprovement = None\<rparr>]
     (js ''opening'')
   = Some (Math_round (jsDivide
        (jsAdd (jsAdd (jsAdd (Num 0) (Num (2466424483427123 / 35184372088832)))
                  (Num (4946922715689779 / 70368744177664)))
           (Num (2501608855515955 / 35184372088832)))
        (Num 3)))"
    by (simp add: catAvg_def categoryScore_def reduceSum_def d
        del: jsAdd.simps jsDivide.simps Math_round.simps)
  then show ?thesis
    by (simp only: s m r e)
qed

end
